theory Spec2Isabelle
  imports Main "HOL-Library.Sublist" "HOL-Library.Monad_Syntax"
begin

section \<open>The log retention filter (trim\_heartbeat\_log.js)\<close>

text \<open>
  A line of the log is a JavaScript string, modelled as a list of 8-bit characters (code
  units up to 0xFF). A time value is the number of milliseconds since the epoch, an
  \<open>int\<close>; the JavaScript number NaN (an invalid date) is \<open>None\<close>.
\<close>

subsection \<open>The header pattern\<close>

text \<open>
  The source matches every line against
  \<^verbatim>\<open>/at\s+(\d{4}-\d{2}-\d{2}\s+\d{2}:\d{2}:\d{2})\s+UTC/\<close>.
  \<open>is_space\<close> is the class \<^verbatim>\<open>\s\<close> on 8-bit characters (TAB, LF, VT, FF, CR, SPACE and
  the no-break space), \<open>is_digit\<close> is \<^verbatim>\<open>\d\<close>.
\<close>

definition is_space :: "char \<Rightarrow> bool" where
  "is_space c = (c \<in> set [CHR 0x09, CHR 0x0A, CHR 0x0B, CHR 0x0C, CHR 0x0D, CHR 0x20, CHR 0xA0])"

definition is_digit :: "char \<Rightarrow> bool" where
  "is_digit c = (c \<in> set ''0123456789'')"

text \<open>\<open>lit p s\<close>: the literal \<open>p\<close> at the head of \<open>s\<close>; the result is the rest of \<open>s\<close>.\<close>

definition lit :: "string \<Rightarrow> string \<Rightarrow> string option" where
  "lit p s = (if take (length p) s = p then Some (drop (length p) s) else None)"

text \<open>\<open>digits n s\<close>: exactly \<open>n\<close> digits at the head of \<open>s\<close> (\<^verbatim>\<open>\d{n}\<close>).\<close>

fun digits :: "nat \<Rightarrow> string \<Rightarrow> (string \<times> string) option" where
  "digits 0 s = Some ([], s)"
| "digits (Suc n) [] = None"
| "digits (Suc n) (c # s) =
     (if is_digit c
      then (case digits n s of None \<Rightarrow> None | Some (d, r) \<Rightarrow> Some (c # d, r))
      else None)"

text \<open>
  \<open>spaces1 s\<close>: one or more white-space characters at the head of \<open>s\<close> (\<^verbatim>\<open>\s+\<close>). The
  quantifier is greedy, and giving characters back never helps here: what follows
  \<^verbatim>\<open>\s+\<close> in the pattern is a digit or the letter U, and neither is white space.
\<close>

definition spaces1 :: "string \<Rightarrow> (string \<times> string) option" where
  "spaces1 s =
     (if takeWhile is_space s = [] then None
      else Some (takeWhile is_space s, dropWhile is_space s))"

text \<open>The pattern at the head of \<open>s\<close>; the result is capture group 1.\<close>

definition match_here :: "string \<Rightarrow> string option" where
  "match_here s = do {
     r0 \<leftarrow> lit ''at'' s;
     (w0, r1) \<leftarrow> spaces1 r0;
     (yyyy, r2) \<leftarrow> digits 4 r1;
     r3 \<leftarrow> lit ''-'' r2;
     (mm, r4) \<leftarrow> digits 2 r3;
     r5 \<leftarrow> lit ''-'' r4;
     (dd, r6) \<leftarrow> digits 2 r5;
     (w1, r7) \<leftarrow> spaces1 r6;
     (hh, r8) \<leftarrow> digits 2 r7;
     r9 \<leftarrow> lit '':'' r8;
     (mi, r10) \<leftarrow> digits 2 r9;
     r11 \<leftarrow> lit '':'' r10;
     (ss, r12) \<leftarrow> digits 2 r11;
     (w2, r13) \<leftarrow> spaces1 r12;
     r14 \<leftarrow> lit ''UTC'' r13;
     Some (yyyy @ ''-'' @ mm @ ''-'' @ dd @ w1 @ hh @ '':'' @ mi @ '':'' @ ss)
   }"

text \<open>
  \<open>header_match line\<close> is \<^verbatim>\<open>line.match(...)\<close>: the pattern is not anchored, so the
  leftmost position where it matches wins; \<open>None\<close> is JavaScript's \<^verbatim>\<open>null\<close>, \<open>Some ts\<close>
  carries \<^verbatim>\<open>match[1]\<close>.
\<close>

fun header_match :: "string \<Rightarrow> string option" where
  "header_match [] = match_here []"
| "header_match (c # s) =
     (case match_here (c # s) of Some ts \<Rightarrow> Some ts | None \<Rightarrow> header_match s)"

subsection \<open>The scan over the lines\<close>

text \<open>
  The loop keeps two variables that outlive an iteration and are read again:
  \<^verbatim>\<open>keepCurrentBlock\<close> and \<^verbatim>\<open>output\<close> (here \<open>output_lines\<close>, since \<open>output\<close> is
  a keyword of Isabelle). (\<^verbatim>\<open>currentTimestamp\<close> and
  \<^verbatim>\<open>currentTimestampMs\<close> are assigned before each of their reads; they are the local
  bindings of \<open>step\<close>.)
\<close>

record scan_state =
  keepCurrentBlock :: bool
  output_lines :: "string list"

text \<open>
  \<^verbatim>\<open>a >= b\<close> on two JavaScript numbers: false as soon as one of them is NaN.
\<close>

fun js_ge :: "int option \<Rightarrow> int option \<Rightarrow> bool" where
  "js_ge (Some a) (Some b) = (b \<le> a)"
| "js_ge _ _ = False"

text \<open>
  One iteration of the loop. \<open>parse\<close> stands for
  \<^verbatim>\<open>s \<mapsto> new Date(s).getTime()\<close>: the date-string parser of the JavaScript engine, which
  ECMAScript leaves to the implementation for strings that are not in the ISO format, as
  \<^verbatim>\<open>2024-01-01 00:00:00 UTC\<close> is not. It returns NaN for a string it cannot read and
  never throws, so the \<^verbatim>\<open>catch\<close> branch of the source is not reachable; an unreadable
  timestamp takes the \<^verbatim>\<open>else\<close> branch of the comparison.
\<close>

definition step :: "(string \<Rightarrow> int option) \<Rightarrow> int option \<Rightarrow> scan_state \<Rightarrow> string \<Rightarrow> scan_state" where
  "step parse cutoffTimestamp st line =
     (case header_match line of
        Some currentTimestamp \<Rightarrow>
          (let currentTimestampMs = parse (currentTimestamp @ '' UTC'') in
           if js_ge currentTimestampMs cutoffTimestamp
           then \<lparr>keepCurrentBlock = True, output_lines = output_lines st @ [line]\<rparr>
           else st\<lparr>keepCurrentBlock := False\<rparr>)
      | None \<Rightarrow>
          (if keepCurrentBlock st then st\<lparr>output_lines := output_lines st @ [line]\<rparr> else st))"

definition scan_from :: "(string \<Rightarrow> int option) \<Rightarrow> int option \<Rightarrow> scan_state \<Rightarrow> string list \<Rightarrow> scan_state" where
  "scan_from parse cutoffTimestamp st lines = foldl (step parse cutoffTimestamp) st lines"

definition initial :: scan_state where
  "initial = \<lparr>keepCurrentBlock = False, output_lines = []\<rparr>"

definition scan :: "(string \<Rightarrow> int option) \<Rightarrow> int option \<Rightarrow> string list \<Rightarrow> scan_state" where
  "scan parse cutoffTimestamp lines = scan_from parse cutoffTimestamp initial lines"

subsection \<open>Time values and the calendar\<close>

text \<open>
  The source computes the cutoff with \<^verbatim>\<open>Date.prototype.getDate\<close> and \<^verbatim>\<open>setDate\<close> and
  prints the current time with \<^verbatim>\<open>toISOString\<close>. These are the date algorithms of
  ECMAScript (ECMA-262, section "Date Objects"), written out on integers: \<open>Day\<close>,
  \<open>TimeWithinDay\<close>, \<open>DayFromYear\<close>, \<open>YearFromTime\<close>, \<open>MonthFromTime\<close>,
  \<open>DateFromTime\<close>, \<open>MakeTime\<close>, \<open>MakeDay\<close>, \<open>MakeDate\<close> and \<open>TimeClip\<close> keep the
  names of the standard. Integer division in HOL rounds down, as the standard's
  \<open>floor\<close> does.
\<close>

definition msPerDay :: int where
  "msPerDay = 86400000"

definition Day :: "int \<Rightarrow> int" where
  "Day t = t div msPerDay"

definition TimeWithinDay :: "int \<Rightarrow> int" where
  "TimeWithinDay t = t mod msPerDay"

definition DaysInYear :: "int \<Rightarrow> int" where
  "DaysInYear y =
     (if y mod 4 \<noteq> 0 then 365
      else if y mod 100 \<noteq> 0 then 366
      else if y mod 400 \<noteq> 0 then 365
      else 366)"

definition DayFromYear :: "int \<Rightarrow> int" where
  "DayFromYear y =
     365 * (y - 1970) + (y - 1969) div 4 - (y - 1901) div 100 + (y - 1601) div 400"

text \<open>
  The standard defines \<open>YearFromTime t\<close> as the largest \<open>y\<close> with
  \<open>DayFromYear y * msPerDay \<le> t\<close>. \<open>YearFromDay\<close> computes it: the mean year has
  146097 / 400 days, which gives an estimate that is off by at most one year, corrected
  by looking at the neighbours. (Lemma \<open>YearFromDay_bounds\<close> below proves that the
  result is the year the standard asks for.)
\<close>

definition YearFromDay :: "int \<Rightarrow> int" where
  "YearFromDay d =
     (let y0 = 1970 + (400 * d) div 146097 in
      if DayFromYear (y0 + 1) \<le> d then y0 + 1
      else if DayFromYear y0 \<le> d then y0
      else y0 - 1)"

definition YearFromTime :: "int \<Rightarrow> int" where
  "YearFromTime t = YearFromDay (Day t)"

definition InLeapYear :: "int \<Rightarrow> int" where
  "InLeapYear t = (if DaysInYear (YearFromTime t) = 366 then 1 else 0)"

definition DayWithinYear :: "int \<Rightarrow> int" where
  "DayWithinYear t = Day t - DayFromYear (YearFromTime t)"

text \<open>
  \<open>month_start m leap\<close>: the day within the year on which month \<open>m\<close> (0 is January)
  starts; the bounds of the standard's table for \<open>MonthFromTime\<close>.
\<close>

definition month_start :: "int \<Rightarrow> int \<Rightarrow> int" where
  "month_start m leap =
     (if m \<le> 0 then 0
      else if m = 1 then 31
      else if m = 2 then 59 + leap
      else if m = 3 then 90 + leap
      else if m = 4 then 120 + leap
      else if m = 5 then 151 + leap
      else if m = 6 then 181 + leap
      else if m = 7 then 212 + leap
      else if m = 8 then 243 + leap
      else if m = 9 then 273 + leap
      else if m = 10 then 304 + leap
      else 334 + leap)"

definition MonthFromTime :: "int \<Rightarrow> int" where
  "MonthFromTime t =
     (let d = DayWithinYear t; leap = InLeapYear t in
      if d < 31 then 0
      else if d < 59 + leap then 1
      else if d < 90 + leap then 2
      else if d < 120 + leap then 3
      else if d < 151 + leap then 4
      else if d < 181 + leap then 5
      else if d < 212 + leap then 6
      else if d < 243 + leap then 7
      else if d < 273 + leap then 8
      else if d < 304 + leap then 9
      else if d < 334 + leap then 10
      else 11)"

definition DateFromTime :: "int \<Rightarrow> int" where
  "DateFromTime t = DayWithinYear t - month_start (MonthFromTime t) (InLeapYear t) + 1"

definition HourFromTime :: "int \<Rightarrow> int" where
  "HourFromTime t = (t div 3600000) mod 24"

definition MinFromTime :: "int \<Rightarrow> int" where
  "MinFromTime t = (t div 60000) mod 60"

definition SecFromTime :: "int \<Rightarrow> int" where
  "SecFromTime t = (t div 1000) mod 60"

definition msFromTime :: "int \<Rightarrow> int" where
  "msFromTime t = t mod 1000"

definition MakeTime :: "int \<Rightarrow> int \<Rightarrow> int \<Rightarrow> int \<Rightarrow> int" where
  "MakeTime hour minute sec ms = hour * 3600000 + minute * 60000 + sec * 1000 + ms"

text \<open>
  \<open>MakeDay year month date\<close>: the day number of the first day of the month, plus
  \<open>date - 1\<close>; a \<open>date\<close> outside the month carries into the neighbouring months.
\<close>

definition MakeDay :: "int \<Rightarrow> int \<Rightarrow> int \<Rightarrow> int" where
  "MakeDay year month date =
     (let ym = year + month div 12; mn = month mod 12 in
      DayFromYear ym + month_start mn (if DaysInYear ym = 366 then 1 else 0) + date - 1)"

definition MakeDate :: "int \<Rightarrow> int \<Rightarrow> int" where
  "MakeDate day time = day * msPerDay + time"

text \<open>A Date holds a time value of at most 8.64e15 ms on either side of the epoch, or NaN.\<close>

definition TimeClip :: "int \<Rightarrow> int option" where
  "TimeClip t = (if \<bar>t\<bar> > 8640000000000000 then None else Some t)"

text \<open>
  The time zone of the host is a parameter: \<open>LocalTZA t isUTC\<close> is the offset of local
  time from UTC in milliseconds, at the UTC instant \<open>t\<close> when \<open>isUTC\<close> and at the local
  time \<open>t\<close> otherwise, as in the standard.
\<close>

type_synonym zone = "int \<Rightarrow> bool \<Rightarrow> int"

text \<open>The zone of a host that keeps UTC.\<close>

definition zone_UTC :: zone where
  "zone_UTC t isUTC = 0"

definition LocalTime :: "zone \<Rightarrow> int \<Rightarrow> int" where
  "LocalTime LocalTZA t = t + LocalTZA t True"

definition UTC :: "zone \<Rightarrow> int \<Rightarrow> int" where
  "UTC LocalTZA t = t - LocalTZA t False"

text \<open>\<^verbatim>\<open>d.getDate()\<close> and \<^verbatim>\<open>d.setDate(date)\<close> on a Date with the valid time value \<open>t\<close>.\<close>

definition getDate :: "zone \<Rightarrow> int \<Rightarrow> int" where
  "getDate LocalTZA t = DateFromTime (LocalTime LocalTZA t)"

definition setDate :: "zone \<Rightarrow> int \<Rightarrow> int \<Rightarrow> int option" where
  "setDate LocalTZA t date =
     (let lt = LocalTime LocalTZA t;
          newDate = MakeDate (MakeDay (YearFromTime lt) (MonthFromTime lt) date) (TimeWithinDay lt)
      in TimeClip (UTC LocalTZA newDate))"

text \<open>
  Lines 34 to 37 of the source: \<^verbatim>\<open>cutoffDate.setDate(cutoffDate.getDate() - daysToKeep)\<close>
  and then \<^verbatim>\<open>getTime()\<close>, for integers \<open>daysToKeep\<close>.
\<close>

definition cutoffTimestamp :: "zone \<Rightarrow> int \<Rightarrow> int \<Rightarrow> int option" where
  "cutoffTimestamp LocalTZA now daysToKeep =
     setDate LocalTZA now (getDate LocalTZA now - daysToKeep)"

subsection \<open>Printing numbers and dates\<close>

definition digit_char :: "nat \<Rightarrow> char" where
  "digit_char n = ''0123456789'' ! (n mod 10)"

text \<open>The decimal digits of a natural number, most significant first.\<close>

fun show_digits :: "nat \<Rightarrow> nat \<Rightarrow> string" where
  "show_digits 0 n = []"
| "show_digits (Suc k) n =
     (if n < 10 then [digit_char n] else show_digits k (n div 10) @ [digit_char n])"

definition show_nat :: "nat \<Rightarrow> string" where
  "show_nat n = show_digits (Suc n) n"

text \<open>
  A template literal prints a safe integer (one of absolute value at most 2^53 - 1 =
  9007199254740991) with all its decimal digits: \<open>show_int\<close>. Above that bound a
  JavaScript number need not be the integer written in the configuration, it is printed
  with the shortest digits that identify it, and from 1e21 in exponent notation; none
  of this is \<open>show_int\<close>. \<open>safe_integer\<close> is the range in which \<open>show_int\<close> is what the
  source prints.
\<close>

definition safe_integer :: "int \<Rightarrow> bool" where
  "safe_integer i = (\<bar>i\<bar> \<le> 9007199254740991)"

definition show_int :: "int \<Rightarrow> string" where
  "show_int i = (if i < 0 then ''-'' @ show_nat (nat (- i)) else show_nat (nat i))"

text \<open>\<open>pad w n\<close>: \<open>n\<close> in decimal, filled with zeros on the left to \<open>w\<close> characters.\<close>

definition pad :: "nat \<Rightarrow> int \<Rightarrow> string" where
  "pad w n = replicate (w - length (show_nat (nat n))) (CHR ''0'') @ show_nat (nat n)"

text \<open>
  \<^verbatim>\<open>toISOString\<close> of a valid date: years 0 to 9999 have four digits, all others a sign
  and six digits.
\<close>

definition toISOString :: "int \<Rightarrow> string" where
  "toISOString t =
     (let y = YearFromTime t in
      (if 0 \<le> y \<and> y \<le> 9999 then pad 4 y
       else (if y < 0 then ''-'' else ''+'') @ pad 6 \<bar>y\<bar>)
      @ ''-'' @ pad 2 (MonthFromTime t + 1)
      @ ''-'' @ pad 2 (DateFromTime t)
      @ ''T'' @ pad 2 (HourFromTime t)
      @ '':'' @ pad 2 (MinFromTime t)
      @ '':'' @ pad 2 (SecFromTime t)
      @ ''.'' @ pad 3 (msFromTime t)
      @ ''Z'')"

text \<open>\<^verbatim>\<open>s.replace(a, b)\<close> with a string pattern replaces the first occurrence only.\<close>

fun replace_first :: "char \<Rightarrow> char \<Rightarrow> string \<Rightarrow> string" where
  "replace_first a b [] = []"
| "replace_first a b (c # s) = (if c = a then b # s else c # replace_first a b s)"

definition formattedDate :: "int \<Rightarrow> string" where
  "formattedDate now = take 19 (replace_first (CHR ''T'') (CHR '' '') (toISOString now))"

subsection \<open>A reference reading of the timestamps\<close>

text \<open>
  The theorems about the filter hold for every date parser. Where a concrete one is
  needed (in the examples, and to show that the filter reads back the timestamp it
  writes), \<open>utc_parse\<close> is the reading that the date algorithms above give a string of
  the shape the header pattern captures, followed by \<^verbatim>\<open> UTC\<close>: six decimal fields, each
  in its range, taken as a UTC date and time; NaN otherwise. It is the reading of Node's
  parser for years 0100 to 9999 and hours 00 to 23, which is where the statements below
  use it. (Node also reads 24:00:00 as the end of the day and moves years 0000 to 0099
  into 1950 to 2049; \<open>utc_parse\<close> does not.)
\<close>

definition digit_val :: "char \<Rightarrow> int" where
  "digit_val c = int (of_char c) - 48"

definition num_of :: "string \<Rightarrow> int" where
  "num_of ds = foldl (\<lambda>n c. 10 * n + digit_val c) 0 ds"

definition utc_parse :: "string \<Rightarrow> int option" where
  "utc_parse s = do {
     (yyyy, r1) \<leftarrow> digits 4 s;
     r2 \<leftarrow> lit ''-'' r1;
     (mm, r3) \<leftarrow> digits 2 r2;
     r4 \<leftarrow> lit ''-'' r3;
     (dd, r5) \<leftarrow> digits 2 r4;
     (w1, r6) \<leftarrow> spaces1 r5;
     (hh, r7) \<leftarrow> digits 2 r6;
     r8 \<leftarrow> lit '':'' r7;
     (mi, r9) \<leftarrow> digits 2 r8;
     r10 \<leftarrow> lit '':'' r9;
     (ss, r11) \<leftarrow> digits 2 r10;
     if r11 \<noteq> '' UTC'' then None
     else if 1 \<le> num_of mm \<and> num_of mm \<le> 12 \<and> 1 \<le> num_of dd \<and> num_of dd \<le> 31
             \<and> num_of hh \<le> 23 \<and> num_of mi \<le> 59 \<and> num_of ss \<le> 59
     then TimeClip (MakeDate (MakeDay (num_of yyyy) (num_of mm - 1) (num_of dd))
                             (MakeTime (num_of hh) (num_of mi) (num_of ss) 0))
     else None
   }"

subsection \<open>The whole filter\<close>

text \<open>\<^verbatim>\<open>content.split('\n')\<close> and \<^verbatim>\<open>output.join('\n')\<close>.\<close>

fun split_lines :: "string \<Rightarrow> string list" where
  "split_lines [] = [[]]"
| "split_lines (c # s) =
     (if c = CHR 0x0A then [] # split_lines s
      else (case split_lines s of [] \<Rightarrow> [[c]] | l # ls \<Rightarrow> (c # l) # ls))"

fun join_lines :: "string list \<Rightarrow> string" where
  "join_lines [] = []"
| "join_lines [l] = l"
| "join_lines (l # ls) = l @ CHR 0x0A # join_lines ls"

text \<open>
  Lines 82 to 84: the two lines pushed after the loop, for a \<^verbatim>\<open>daysToKeep\<close> that is a safe
  integer (see \<open>show_int\<close>).
\<close>

definition trailer :: "int \<Rightarrow> int \<Rightarrow> string list" where
  "trailer now daysToKeep =
     [''Heartbeat log maintenance successful at '' @ formattedDate now @ '' UTC'',
      ''Removed entries older than '' @ show_int daysToKeep @ '' days'']"

text \<open>
  Lines 34 to 84, from the lines read to the lines written: \<open>now\<close> is the value of
  \<^verbatim>\<open>new Date()\<close>, a valid time value.
\<close>

definition trimmed_lines ::
    "(string \<Rightarrow> int option) \<Rightarrow> zone \<Rightarrow> int \<Rightarrow> int \<Rightarrow> string list \<Rightarrow> string list" where
  "trimmed_lines parse LocalTZA now daysToKeep lines =
     output_lines (scan parse (cutoffTimestamp LocalTZA now daysToKeep) lines)
       @ trailer now daysToKeep"

definition trimmed_content ::
    "(string \<Rightarrow> int option) \<Rightarrow> zone \<Rightarrow> int \<Rightarrow> int \<Rightarrow> string \<Rightarrow> string" where
  "trimmed_content parse LocalTZA now daysToKeep content =
     join_lines (trimmed_lines parse LocalTZA now daysToKeep (split_lines content))"

text \<open>
  The files the function touches: a map from paths to contents. \<^verbatim>\<open>writeFileSync\<close>
  creates or replaces a file, \<^verbatim>\<open>renameSync\<close> moves a file over whatever is at the new
  path.
\<close>

type_synonym files = "string \<rightharpoonup> string"

definition writeFileSync :: "string \<Rightarrow> string \<Rightarrow> files \<Rightarrow> files" where
  "writeFileSync path data fs = fs(path \<mapsto> data)"

definition renameSync :: "string \<Rightarrow> string \<Rightarrow> files \<Rightarrow> files" where
  "renameSync oldPath newPath fs =
     (case fs oldPath of
        None \<Rightarrow> fs
      | Some data \<Rightarrow> (fs(oldPath := None))(newPath \<mapsto> data))"

record config =
  heartbeat_log :: string
  log_days_to_keep :: int

text \<open>
  \<open>trimHeartbeatLog\<close>, lines 19 to 89, as a function from the files before the run to
  the files after it. A log file that does not exist leaves everything as it is (the
  source prints a warning and returns).
\<close>

definition trimHeartbeatLog ::
    "(string \<Rightarrow> int option) \<Rightarrow> zone \<Rightarrow> int \<Rightarrow> config \<Rightarrow> files \<Rightarrow> files" where
  "trimHeartbeatLog parse LocalTZA now config fs =
     (let logFile = heartbeat_log config;
          daysToKeep = log_days_to_keep config;
          tempFile = logFile @ ''.tmp''
      in case fs logFile of
           None \<Rightarrow> fs
         | Some content \<Rightarrow>
             renameSync tempFile logFile
               (writeFileSync tempFile
                  (trimmed_content parse LocalTZA now daysToKeep content) fs))"

subsection \<open>Notions used in the statements about the filter\<close>

text \<open>
  A header line is a line the pattern matches. \<open>header_kept\<close> is the decision the loop
  takes on a header line: the comparison of line 62. \<open>owner_kept\<close> looks at the lines
  before a position and tells whether the most recent header line among them was kept
  (false when there is none). \<open>kept_from keep lines\<close> is what the loop pushes for
  \<open>lines\<close> when it enters them with \<^verbatim>\<open>keepCurrentBlock = keep\<close>.
\<close>

definition is_header :: "string \<Rightarrow> bool" where
  "is_header line = (header_match line \<noteq> None)"

definition header_kept :: "(string \<Rightarrow> int option) \<Rightarrow> int option \<Rightarrow> string \<Rightarrow> bool" where
  "header_kept parse cutoff line =
     (case header_match line of
        None \<Rightarrow> False
      | Some ts \<Rightarrow> js_ge (parse (ts @ '' UTC'')) cutoff)"

definition owner_kept :: "(string \<Rightarrow> int option) \<Rightarrow> int option \<Rightarrow> string list \<Rightarrow> bool" where
  "owner_kept parse cutoff before =
     (case rev (filter is_header before) of
        [] \<Rightarrow> False
      | h # earlier \<Rightarrow> header_kept parse cutoff h)"

definition kept_from ::
    "(string \<Rightarrow> int option) \<Rightarrow> int option \<Rightarrow> bool \<Rightarrow> string list \<Rightarrow> string list" where
  "kept_from parse cutoff keep lines =
     output_lines
       (scan_from parse cutoff \<lparr>keepCurrentBlock = keep, output_lines = []\<rparr> lines)"

text \<open>
  \<open>stamp t\<close>: the date and time of \<open>t\<close> to the second, in the form the log uses. (Lemma
  \<open>formattedDate_stamp\<close> shows that this is what the filter prints in its trailer for
  years 1970 to 9999.)
\<close>

definition stamp :: "int \<Rightarrow> string" where
  "stamp t =
     pad 4 (YearFromTime t) @ ''-'' @ pad 2 (MonthFromTime t + 1) @ ''-'' @ pad 2 (DateFromTime t)
     @ '' '' @ pad 2 (HourFromTime t) @ '':'' @ pad 2 (MinFromTime t) @ '':'' @ pad 2 (SecFromTime t)"

subsection \<open>Example logs\<close>

text \<open>
  A log path and two configurations; an empty log, a log whose only entry is five months
  old on 2024-06-01 (the scenario of the project's description), and a log whose only
  entry is two hours old then.
\<close>

definition log_path :: string where
  "log_path = ''logs/heartbeat.log''"

definition keep_30_days :: config where
  "keep_30_days = \<lparr>heartbeat_log = log_path, log_days_to_keep = 30\<rparr>"

definition keep_0_days :: config where
  "keep_0_days = \<lparr>heartbeat_log = log_path, log_days_to_keep = 0\<rparr>"

definition empty_log :: files where
  "empty_log = [log_path \<mapsto> []]"

definition expired_log :: files where
  "expired_log =
     [log_path \<mapsto> ''Heartbeat update successful at 2024-01-01 00:00:00 UTC'' @ [CHR 0x0A] @ ''  detail line'']"

definition recent_log :: files where
  "recent_log =
     [log_path \<mapsto> ''Heartbeat update successful at 2024-05-31 22:00:00 UTC'' @ [CHR 0x0A] @ ''  detail line'']"

section \<open>The heartbeat reporter (raspberry\_heartbeat.js)\<close>

text \<open>
  A call that can throw (a rejected promise) returns a sum: \<open>Inl\<close> carries the error,
  with its message.
\<close>

datatype io_error = IOError string

fun error_message :: "io_error \<Rightarrow> string" where
  "error_message (IOError m) = m"

subsection \<open>The error log scanner\<close>

record error_log_status =
  has_error :: bool
  message :: string
  latest_log :: "string option"
  log_content :: "string option"

text \<open>
  What \<open>checkErrorLog\<close> reads from its surroundings:
  \<^item> \<open>readdir\<close>: \<^verbatim>\<open>fs.promises.readdir(ERROR_LOGS_DIR)\<close>;
  \<^item> \<open>ERROR_LOG_PATTERN\<close>: the configured regular expression, \<open>None\<close> where it does not
    match a name and the text of its capture groups 1 to 3 where it does;
  \<^item> \<open>localeCompare\<close>: the string comparison of the host, negative, zero or positive;
  \<^item> \<open>stat_size\<close>: \<^verbatim>\<open>fs.promises.stat(logPath)\<close> and then \<^verbatim>\<open>.size\<close>;
  \<^item> \<open>read_head\<close>: \<open>read_head name n\<close> is the buffer of \<open>n\<close> bytes after
    \<^verbatim>\<open>open\<close>, \<^verbatim>\<open>read(buffer, 0, n, 0)\<close> and \<^verbatim>\<open>close\<close>;
  \<^item> \<open>utf8\<close>: \<^verbatim>\<open>buffer.toString('utf8')\<close>.
\<close>

record scan_env =
  readdir :: "io_error + string list"
  ERROR_LOG_PATTERN :: "string \<Rightarrow> (string \<times> string \<times> string) option"
  localeCompare :: "string \<Rightarrow> string \<Rightarrow> int"
  stat_size :: "string \<Rightarrow> io_error + nat"
  read_head :: "string \<Rightarrow> nat \<Rightarrow> io_error + string"
  utf8 :: "string \<Rightarrow> string"

text \<open>
  \<^verbatim>\<open>Array.prototype.sort\<close> with a comparison function is a stable sort; insertion
  from the right is one (for a comparison that is a consistent ordering every stable
  sort gives the same list).
\<close>

fun insert_by :: "('a \<Rightarrow> 'a \<Rightarrow> int) \<Rightarrow> 'a \<Rightarrow> 'a list \<Rightarrow> 'a list" where
  "insert_by cmp x [] = [x]"
| "insert_by cmp x (y # ys) =
     (if cmp x y \<le> 0 then x # y # ys else y # insert_by cmp x ys)"

definition sort_by :: "('a \<Rightarrow> 'a \<Rightarrow> int) \<Rightarrow> 'a list \<Rightarrow> 'a list" where
  "sort_by cmp xs = foldr (insert_by cmp) xs []"

text \<open>The comparison function of lines 237 to 246: newest date first.\<close>

definition compare_dates :: "scan_env \<Rightarrow> string \<Rightarrow> string \<Rightarrow> int" where
  "compare_dates env a b =
     (case (ERROR_LOG_PATTERN env a, ERROR_LOG_PATTERN env b) of
        (Some (a1, a2, a3), Some (b1, b2, b3)) \<Rightarrow>
          localeCompare env (b1 @ ''-'' @ b2 @ ''-'' @ b3) (a1 @ ''-'' @ a2 @ ''-'' @ a3)
      | _ \<Rightarrow> 0)"

definition errorLogFiles :: "scan_env \<Rightarrow> string list \<Rightarrow> string list" where
  "errorLogFiles env files = filter (\<lambda>file. ERROR_LOG_PATTERN env file \<noteq> None) files"

definition check_failed :: "io_error \<Rightarrow> error_log_status" where
  "check_failed error =
     \<lparr>has_error = False,
      message = ''Error checking logs: '' @ error_message error,
      latest_log = None,
      log_content = None\<rparr>"

definition check_result :: "nat \<Rightarrow> string \<Rightarrow> string \<Rightarrow> error_log_status" where
  "check_result fileSize latestLogFile logContent =
     \<lparr>has_error = (fileSize > 0),
      message = (if fileSize > 0 then ''Error log contains '' @ show_nat fileSize @ '' bytes''
                 else ''Error log is empty''),
      latest_log = Some latestLogFile,
      log_content = (if fileSize > 0 then Some logContent else None)\<rparr>"

text \<open>
  \<open>checkErrorLog\<close>, lines 219 to 286. Every \<open>Inl\<close> is an exception inside the
  \<^verbatim>\<open>try\<close> block and ends in the \<^verbatim>\<open>catch\<close> branch, \<open>check_failed\<close>. (The sorted list
  of a non-empty list is not empty; were it empty, \<^verbatim>\<open>path.join\<close> would throw on
  \<^verbatim>\<open>undefined\<close>.)
\<close>

definition checkErrorLog :: "scan_env \<Rightarrow> error_log_status" where
  "checkErrorLog env =
     (case readdir env of
        Inl error \<Rightarrow> check_failed error
      | Inr files \<Rightarrow>
          if length (errorLogFiles env files) = 0
          then \<lparr>has_error = False, message = ''No error logs found'',
                latest_log = None, log_content = None\<rparr>
          else
            (case sort_by (compare_dates env) (errorLogFiles env files) of
               [] \<Rightarrow> check_failed (IOError ''The path argument must be of type string'')
             | latestLogFile # rest \<Rightarrow>
                 (case stat_size env latestLogFile of
                    Inl error \<Rightarrow> check_failed error
                  | Inr fileSize \<Rightarrow>
                      if fileSize > 0
                      then
                        (case read_head env latestLogFile (min 500 fileSize) of
                           Inl error \<Rightarrow> check_failed error
                         | Inr buffer \<Rightarrow>
                             check_result fileSize latestLogFile
                               (utf8 env buffer @ (if fileSize > 500 then ''...'' else [])))
                      else check_result fileSize latestLogFile [])))"

subsection \<open>The status publisher\<close>

text \<open>
  A response of the remote store: the status code and \<^verbatim>\<open>response.data.sha\<close>, absent
  (\<open>None\<close>) or a string.
\<close>

record http_response =
  statusCode :: nat
  data_sha :: "string option"

text \<open>The body of the write request; \<open>sha = None\<close> is a body without the field.\<close>

record update_data =
  commit_message :: string
  content :: string
  encoding :: string
  sha :: "string option"

text \<open>
  The remote store as one attempt sees it: the answer to the GET, and the answer to the
  PUT as a function of the body sent.
\<close>

record remote =
  http_get :: "io_error + http_response"
  http_put :: "update_data \<Rightarrow> io_error + http_response"

text \<open>
  \<open>http_get\<close> and \<open>http_put\<close> are what the promises of \<^verbatim>\<open>httpsRequest\<close> settle to. How
  they come about is lines 53 to 122. The timeout of a request is \<^verbatim>\<open>options.timeout\<close>
  when that is a finite number and \<^verbatim>\<open>HTTP_TIMEOUT\<close>, the \<^verbatim>\<open>default_http_timeout\<close> of the
  configuration, otherwise (lines 59 to 62); \<open>None\<close> is a value that is not a number, such
  as \<^verbatim>\<open>undefined\<close> when the configuration has no such key.
\<close>

definition timeoutMs :: "int option \<Rightarrow> int option \<Rightarrow> int option" where
  "timeoutMs options_timeout HTTP_TIMEOUT =
     (case options_timeout of Some ms \<Rightarrow> Some ms | None \<Rightarrow> HTTP_TIMEOUT)"

text \<open>
  \<^verbatim>\<open>req.setTimeout(msecs, ...)\<close> throws unless \<open>msecs\<close> is a number that is not negative.
\<close>

definition setTimeout_throws :: "int option \<Rightarrow> bool" where
  "setTimeout_throws msecs = (case msecs of None \<Rightarrow> True | Some ms \<Rightarrow> ms < 0)"

text \<open>
  \<open>httpsRequest options_timeout HTTP_TIMEOUT wire\<close>: \<open>wire\<close> is what the network does with
  the request once it is sent (a response, or an error, the timeout included).
  The request is created at line 65. Line 105 sets its timeout, line 109 attaches the
  listener for \<^verbatim>\<open>'error'\<close> and line 120 sends it. When line 105 throws, the promise
  rejects with that error, and the request stays behind, created but never sent and with
  no listener for \<^verbatim>\<open>'error'\<close>: \<open>orphan\<close>.
\<close>

record request_result =
  settles_to :: "io_error + http_response"
  orphan :: bool

definition httpsRequest ::
    "int option \<Rightarrow> int option \<Rightarrow> (io_error + http_response) \<Rightarrow> request_result" where
  "httpsRequest options_timeout HTTP_TIMEOUT wire =
     (if setTimeout_throws (timeoutMs options_timeout HTTP_TIMEOUT)
      then \<lparr>settles_to =
              Inl (IOError (case timeoutMs options_timeout HTTP_TIMEOUT of
                              None \<Rightarrow> ''ERR_INVALID_ARG_TYPE''
                            | Some ms \<Rightarrow> ''ERR_OUT_OF_RANGE'')),
            orphan = True\<rparr>
      else \<lparr>settles_to = wire, orphan = False\<rparr>)"

text \<open>
  \<open>seen_with HTTP_TIMEOUT store\<close>: the remote store as \<open>updateGithubFile\<close> sees it through
  \<^verbatim>\<open>httpsRequest\<close>, when \<open>store\<close> is what the network does. The request options of
  \<open>updateGithubFile\<close> (lines 336 to 346) have no \<^verbatim>\<open>timeout\<close>.
\<close>

definition seen_with :: "int option \<Rightarrow> remote \<Rightarrow> remote" where
  "seen_with HTTP_TIMEOUT store =
     \<lparr>http_get = settles_to (httpsRequest None HTTP_TIMEOUT (http_get store)),
      http_put = (\<lambda>body. settles_to (httpsRequest None HTTP_TIMEOUT (http_put store body)))\<rparr>"

text \<open>Lines 349 to 358: the inner \<^verbatim>\<open>try\<close>, with its own \<^verbatim>\<open>catch\<close>.\<close>

definition fetched_sha :: "io_error + http_response \<Rightarrow> string option" where
  "fetched_sha r =
     (case r of
        Inr response \<Rightarrow> (if statusCode response = 200 then data_sha response else None)
      | Inl error \<Rightarrow> None)"

text \<open>\<^verbatim>\<open>if (sha)\<close>: \<^verbatim>\<open>null\<close>, \<^verbatim>\<open>undefined\<close> and the empty string are falsy.\<close>

fun truthy :: "string option \<Rightarrow> bool" where
  "truthy None = False"
| "truthy (Some s) = (s \<noteq> [])"

text \<open>Lines 364 to 373.\<close>

definition updateData :: "string option \<Rightarrow> string \<Rightarrow> update_data" where
  "updateData sha_seen encoded =
     \<lparr>commit_message = (if truthy sha_seen then ''Update heartbeat status''
                         else ''Create heartbeat status file''),
      content = encoded,
      encoding = ''base64'',
      sha = (if truthy sha_seen then sha_seen else None)\<rparr>"

text \<open>
  \<open>updateGithubFile\<close>, lines 330 to 381; \<open>encoded\<close> is the serialised status record in
  base64. \<open>updateGithubFile_try\<close> is the outer \<^verbatim>\<open>try\<close> block, in which a failed PUT
  throws; \<open>updateGithubFile\<close> adds the \<^verbatim>\<open>catch\<close>, which returns false.
\<close>

definition updateGithubFile_try :: "remote \<Rightarrow> string \<Rightarrow> io_error + bool" where
  "updateGithubFile_try r encoded =
     (let sha_seen = fetched_sha (http_get r) in
      case http_put r (updateData sha_seen encoded) of
        Inl error \<Rightarrow> Inl error
      | Inr updateResponse \<Rightarrow>
          Inr (statusCode updateResponse = 200 \<or> statusCode updateResponse = 201))"

definition updateGithubFile :: "remote \<Rightarrow> string \<Rightarrow> bool" where
  "updateGithubFile r encoded =
     (case updateGithubFile_try r encoded of Inl error \<Rightarrow> False | Inr ok \<Rightarrow> ok)"

subsection \<open>The retry loop of main\<close>

text \<open>
  What the loop of lines 391 to 399 does, in order: \<open>Attempt i\<close> is the \<open>i\<close>-th call of
  \<open>updateGithubFile\<close>, \<open>Backoff ms\<close> a wait of \<open>ms\<close> milliseconds. \<open>remote_at i\<close> is the
  remote store as the \<open>i\<close>-th attempt finds it.
\<close>

datatype event = Attempt nat | Backoff nat

function retry_loop :: "(nat \<Rightarrow> remote) \<Rightarrow> string \<Rightarrow> nat \<Rightarrow> nat \<Rightarrow> bool \<times> event list" where
  "retry_loop remote_at encoded attempts i =
     (if i \<le> attempts
      then (if updateGithubFile (remote_at i) encoded
            then (True, [Attempt i])
            else (let (success, events) = retry_loop remote_at encoded attempts (i + 1)
                  in (success, Attempt i # Backoff (i * 2000) # events)))
      else (False, []))"
  by pat_completeness auto
termination
  by (relation "measure (\<lambda>(remote_at, encoded, attempts, i). attempts + 1 - i)") auto

text \<open>
  \<open>main\<close>, lines 386 to 410. \<open>info\<close> is the result of \<^verbatim>\<open>getSystemInfo()\<close>, which may
  throw, with the serialised record and its timestamp. The result is what the promise
  of \<open>main\<close> settles to: \<open>Inl\<close> if it rejects, else the value of \<^verbatim>\<open>success\<close> and the
  events of the loop. (What the function prints is not part of the model.)
\<close>

record system_info =
  timestamp :: string
  encoded_record :: string

record main_result =
  succeeded :: bool
  events :: "event list"

definition main_try :: "(io_error + system_info) \<Rightarrow> (nat \<Rightarrow> remote) \<Rightarrow> io_error + main_result" where
  "main_try info remote_at =
     (case info of
        Inl error \<Rightarrow> Inl error
      | Inr systemInfo \<Rightarrow>
          (let (success, evs) = retry_loop remote_at (encoded_record systemInfo) 3 1 in
           Inr \<lparr>succeeded = success, events = evs\<rparr>))"

definition main :: "(io_error + system_info) \<Rightarrow> (nat \<Rightarrow> remote) \<Rightarrow> io_error + main_result" where
  "main info remote_at =
     (case main_try info remote_at of
        Inl error \<Rightarrow> Inr \<lparr>succeeded = False, events = []\<rparr>
      | Inr result \<Rightarrow> Inr result)"

text \<open>
  The process as a whole, line 413: \<open>store_at i\<close> is what the network does at the
  \<open>i\<close>-th attempt. The process ends in one of two ways. Either the promise of \<open>main\<close>
  settles and nothing else is pending: \<open>Settles\<close>. Or a request was orphaned: its socket
  fails to connect, or is closed by the other side without a response since nothing was
  ever sent on it, the request emits \<^verbatim>\<open>'error'\<close>, nobody listens, and Node ends the
  process on the uncaught error: \<open>Crashes\<close>. (Until then the open socket keeps the
  process alive, also after \<open>main\<close> has returned, so it cannot end with status 0
  before.) Requests are made as soon as \<^verbatim>\<open>getSystemInfo()\<close> has returned, the first by
  the GET of attempt 1.
\<close>

datatype process_end = Settles "io_error + main_result" | Crashes

definition heartbeat_process ::
    "int option \<Rightarrow> (io_error + system_info) \<Rightarrow> (nat \<Rightarrow> remote) \<Rightarrow> process_end" where
  "heartbeat_process HTTP_TIMEOUT info store_at =
     (case info of
        Inl error \<Rightarrow> Settles (main info (\<lambda>i. seen_with HTTP_TIMEOUT (store_at i)))
      | Inr systemInfo \<Rightarrow>
          if orphan (httpsRequest None HTTP_TIMEOUT (http_get (store_at 1)))
          then Crashes
          else Settles (main info (\<lambda>i. seen_with HTTP_TIMEOUT (store_at i))))"

text \<open>
  The exit status: nothing in \<open>main\<close> calls \<^verbatim>\<open>process.exit\<close>, so it is 0 when the promise
  of \<open>main\<close> is fulfilled, and 1 on an uncaught error or an unhandled rejection.
\<close>

fun exit_status :: "process_end \<Rightarrow> nat" where
  "exit_status Crashes = 1"
| "exit_status (Settles (Inl error)) = 1"
| "exit_status (Settles (Inr result)) = 0"

subsection \<open>Notions used in the statements about the reporter\<close>

text \<open>
  The two bodies the write request can have, and the verdict of line 376 on the answer
  to a body.
\<close>

definition create_request :: "string \<Rightarrow> update_data" where
  "create_request encoded =
     \<lparr>commit_message = ''Create heartbeat status file'', content = encoded,
      encoding = ''base64'', sha = None\<rparr>"

definition update_request :: "string \<Rightarrow> string \<Rightarrow> update_data" where
  "update_request X encoded =
     \<lparr>commit_message = ''Update heartbeat status'', content = encoded,
      encoding = ''base64'', sha = Some X\<rparr>"

definition put_succeeds :: "remote \<Rightarrow> update_data \<Rightarrow> bool" where
  "put_succeeds r body =
     (case http_put r body of
        Inl error \<Rightarrow> False
      | Inr updateResponse \<Rightarrow>
          statusCode updateResponse = 200 \<or> statusCode updateResponse = 201)"

subsection \<open>Example surroundings\<close>

text \<open>
  A directory for the error log scanner, as a list of names with their bytes, in the
  order \<^verbatim>\<open>readdir\<close> lists them; the pattern of the project's README,
  \<^verbatim>\<open>^my_script_(\d{4})-(\d{2})-(\d{2})_error\.log$\<close>; comparison of strings by character
  code, which is what \<^verbatim>\<open>localeCompare\<close> gives on digits and hyphens; bytes that are
  ASCII, which UTF-8 decodes to themselves.
\<close>

definition demo_pattern :: "string \<Rightarrow> (string \<times> string \<times> string) option" where
  "demo_pattern name = do {
     r0 \<leftarrow> lit ''my_script_'' name;
     (yyyy, r1) \<leftarrow> digits 4 r0;
     r2 \<leftarrow> lit ''-'' r1;
     (mm, r3) \<leftarrow> digits 2 r2;
     r4 \<leftarrow> lit ''-'' r3;
     (dd, r5) \<leftarrow> digits 2 r4;
     if r5 = ''_error.log'' then Some (yyyy, mm, dd) else None
   }"

fun compare_codes :: "string \<Rightarrow> string \<Rightarrow> int" where
  "compare_codes [] [] = 0"
| "compare_codes [] (b # bs) = - 1"
| "compare_codes (a # as) [] = 1"
| "compare_codes (a # as) (b # bs) =
     (if (of_char a :: nat) < of_char b then - 1
      else if (of_char b :: nat) < of_char a then 1
      else compare_codes as bs)"

definition demo_dir :: "(string \<times> string) list" where
  "demo_dir =
     [(''my_script_2024-05-30_error.log'', ''old failure''),
      (''notes.txt'', ''not an error log''),
      (''my_script_2024-06-01_error.log'', []),
      (''my_script_2024-05-31_error.log'', replicate 600 (CHR ''x''))]"

definition dir_env :: "(string \<times> string) list \<Rightarrow> scan_env" where
  "dir_env dir =
     \<lparr>readdir = Inr (map fst dir),
      ERROR_LOG_PATTERN = demo_pattern,
      localeCompare = compare_codes,
      stat_size = (\<lambda>name. case map_of dir name of
                     None \<Rightarrow> Inl (IOError ''ENOENT'')
                   | Some bytes \<Rightarrow> Inr (length bytes)),
      read_head = (\<lambda>name n. case map_of dir name of
                     None \<Rightarrow> Inl (IOError ''ENOENT'')
                   | Some bytes \<Rightarrow> Inr (take n bytes @ replicate (n - length bytes) (CHR 0x00))),
      utf8 = (\<lambda>bytes. bytes)\<rparr>"

text \<open>
  Remote stores: one that has no document yet and accepts a create, one that holds a
  document with version token \<^verbatim>\<open>3f2a9c\<close> and accepts an update with that token, one that
  cannot be reached, one whose fetch finds nothing although the write wants the token
  (it answers 409), and one that cannot be reached before the second attempt.
\<close>

definition accepts_create :: "update_data \<Rightarrow> io_error + http_response" where
  "accepts_create body =
     (if sha body = None then Inr \<lparr>statusCode = 201, data_sha = None\<rparr>
      else Inr \<lparr>statusCode = 409, data_sha = None\<rparr>)"

definition accepts_update :: "string \<Rightarrow> update_data \<Rightarrow> io_error + http_response" where
  "accepts_update current body =
     (if sha body = Some current then Inr \<lparr>statusCode = 200, data_sha = None\<rparr>
      else Inr \<lparr>statusCode = 409, data_sha = None\<rparr>)"

definition first_run :: remote where
  "first_run = \<lparr>http_get = Inr \<lparr>statusCode = 404, data_sha = None\<rparr>, http_put = accepts_create\<rparr>"

definition later_run :: remote where
  "later_run = \<lparr>http_get = Inr \<lparr>statusCode = 200, data_sha = Some ''3f2a9c''\<rparr>,
                http_put = accepts_update ''3f2a9c''\<rparr>"

definition offline :: remote where
  "offline = \<lparr>http_get = Inl (IOError ''ECONNRESET''),
              http_put = (\<lambda>body. Inl (IOError ''ECONNRESET''))\<rparr>"

definition stale :: remote where
  "stale = \<lparr>http_get = Inr \<lparr>statusCode = 404, data_sha = None\<rparr>,
            http_put = accepts_update ''3f2a9c''\<rparr>"

definition always_offline :: "nat \<Rightarrow> remote" where
  "always_offline i = offline"

definition back_at_2 :: "nat \<Rightarrow> remote" where
  "back_at_2 i = (if i < 2 then offline else first_run)"

definition demo_info :: system_info where
  "demo_info = \<lparr>timestamp = ''2024-06-01 00:00:00'', encoded_record = ''e30=''\<rparr>"

section \<open>Properties of the log retention filter\<close>

subsection \<open>The scan, line by line\<close>

lemma step_output:
  "output_lines (step parse c st line) =
     output_lines st @ output_lines (step parse c (st\<lparr>output_lines := []\<rparr>) line)"
  by (simp add: step_def Let_def split: option.splits)

lemma step_keep:
  "keepCurrentBlock (step parse c st line) =
     (if is_header line then header_kept parse c line else keepCurrentBlock st)"
  by (simp add: step_def Let_def is_header_def header_kept_def split: option.splits)

lemma step_lines:
  "output_lines (step parse c st line) =
     output_lines st @
       (if (if is_header line then header_kept parse c line else keepCurrentBlock st)
        then [line] else [])"
  by (simp add: step_def Let_def is_header_def header_kept_def split: option.splits)

lemma scan_from_Nil: "scan_from parse c st [] = st"
  by (simp add: scan_from_def)

lemma scan_from_Cons: "scan_from parse c st (l # ls) = scan_from parse c (step parse c st l) ls"
  by (simp add: scan_from_def)

lemma scan_from_append:
  "scan_from parse c st (xs @ ys) = scan_from parse c (scan_from parse c st xs) ys"
  by (simp add: scan_from_def)

lemma scan_from_output_split:
  "output_lines (scan_from parse c st lines) =
     output_lines st @ output_lines (scan_from parse c (st\<lparr>output_lines := []\<rparr>) lines)"
proof (induction lines arbitrary: st)
  case Nil
  show ?case by (simp add: scan_from_Nil)
next
  case (Cons l ls)
  have "output_lines (scan_from parse c st (l # ls))
        = output_lines (step parse c st l)
          @ output_lines (scan_from parse c ((step parse c st l)\<lparr>output_lines := []\<rparr>) ls)"
    using Cons.IH[of "step parse c st l"] by (simp add: scan_from_Cons)
  also have "(step parse c st l)\<lparr>output_lines := []\<rparr>
             = (step parse c (st\<lparr>output_lines := []\<rparr>) l)\<lparr>output_lines := []\<rparr>"
    by (simp add: step_def Let_def split: option.splits)
  also have "output_lines (step parse c st l)
             = output_lines st @ output_lines (step parse c (st\<lparr>output_lines := []\<rparr>) l)"
    by (rule step_output)
  finally show ?case
    using Cons.IH[of "step parse c (st\<lparr>output_lines := []\<rparr>) l"]
    by (simp add: scan_from_Cons)
qed

lemma scan_from_output:
  "output_lines (scan_from parse c st lines) =
     output_lines st @ kept_from parse c (keepCurrentBlock st) lines"
proof -
  have eq: "st\<lparr>output_lines := []\<rparr> = \<lparr>keepCurrentBlock = keepCurrentBlock st, output_lines = []\<rparr>"
    by simp
  show ?thesis
    unfolding kept_from_def eq[symmetric] by (rule scan_from_output_split)
qed

lemma scan_from_keep:
  "keepCurrentBlock (scan_from parse c st lines) =
     (case rev (filter is_header lines) of
        [] \<Rightarrow> keepCurrentBlock st
      | h # earlier \<Rightarrow> header_kept parse c h)"
proof (induction lines arbitrary: st)
  case Nil
  show ?case by (simp add: scan_from_Nil)
next
  case (Cons l ls)
  show ?case
    by (simp add: scan_from_Cons Cons.IH step_keep split: list.splits)
qed

lemma kept_from_Nil: "kept_from parse c k [] = []"
  by (simp add: kept_from_def scan_from_Nil)

lemma kept_from_Cons:
  "kept_from parse c k (l # ls) =
     (if is_header l
      then (if header_kept parse c l then l # kept_from parse c True ls
            else kept_from parse c False ls)
      else (if k then l # kept_from parse c True ls else kept_from parse c False ls))"
proof -
  let ?st = "\<lparr>keepCurrentBlock = k, output_lines = []\<rparr>"
  have "kept_from parse c k (l # ls) = output_lines (scan_from parse c (step parse c ?st l) ls)"
    by (simp add: kept_from_def scan_from_Cons)
  also have "\<dots> = output_lines (step parse c ?st l)
                   @ kept_from parse c (keepCurrentBlock (step parse c ?st l)) ls"
    by (rule scan_from_output)
  finally show ?thesis
    by (simp add: step_lines step_keep)
qed

lemma kept_from_append:
  "kept_from parse c k (xs @ ys) =
     kept_from parse c k xs @
     kept_from parse c (keepCurrentBlock (scan_from parse c \<lparr>keepCurrentBlock = k, output_lines = []\<rparr> xs)) ys"
proof -
  let ?st = "\<lparr>keepCurrentBlock = k, output_lines = []\<rparr>"
  have "kept_from parse c k (xs @ ys) = output_lines (scan_from parse c (scan_from parse c ?st xs) ys)"
    by (simp add: kept_from_def scan_from_append)
  also have "\<dots> = output_lines (scan_from parse c ?st xs)
                   @ kept_from parse c (keepCurrentBlock (scan_from parse c ?st xs)) ys"
    by (rule scan_from_output)
  finally show ?thesis
    by (simp add: kept_from_def)
qed

lemma kept_from_subseq: "subseq (kept_from parse c k lines) lines"
  by (induction lines arbitrary: k) (auto simp: kept_from_Nil kept_from_Cons)

lemma scan_output: "output_lines (scan parse c lines) = kept_from parse c False lines"
  by (simp add: scan_def kept_from_def initial_def)

lemma scan_keep: "keepCurrentBlock (scan parse c lines) = owner_kept parse c lines"
  by (simp add: scan_def initial_def scan_from_keep owner_kept_def split: list.splits)

lemma kept_from_keep:
  "keepCurrentBlock (scan_from parse c \<lparr>keepCurrentBlock = False, output_lines = []\<rparr> lines)
   = owner_kept parse c lines"
  by (simp add: scan_from_keep owner_kept_def split: list.splits)

lemma kept_around:
  "kept_from parse c False (before @ line # rest) =
     kept_from parse c False before
     @ (if (if is_header line then header_kept parse c line else owner_kept parse c before)
        then [line] else [])
     @ kept_from parse c
         (if is_header line then header_kept parse c line else owner_kept parse c before) rest"
  by (simp add: kept_from_append kept_from_keep kept_from_Cons)

lemma MonthFromTime_range: "0 \<le> MonthFromTime t \<and> MonthFromTime t \<le> 11"
  by (simp add: MonthFromTime_def Let_def)

lemma MakeDay_of_fields:
  "MakeDay (YearFromTime t) (MonthFromTime t) (DateFromTime t + k) = Day t + k"
proof -
  have m: "MonthFromTime t div 12 = 0" "MonthFromTime t mod 12 = MonthFromTime t"
    using MonthFromTime_range[of t] by simp_all
  show ?thesis
    by (simp add: MakeDay_def m Let_def DateFromTime_def DayWithinYear_def InLeapYear_def)
qed

lemma MakeDate_Day: "MakeDate (Day t + k) (TimeWithinDay t) = t + k * msPerDay"
  by (simp add: MakeDate_def Day_def TimeWithinDay_def algebra_simps)

lemma cutoffTimestamp_eq:
  "cutoffTimestamp LocalTZA now daysToKeep =
     TimeClip (UTC LocalTZA (LocalTime LocalTZA now - daysToKeep * msPerDay))"
proof -
  let ?lt = "LocalTime LocalTZA now"
  have "MakeDay (YearFromTime ?lt) (MonthFromTime ?lt) (DateFromTime ?lt - daysToKeep)
        = Day ?lt + (- daysToKeep)"
    using MakeDay_of_fields[of ?lt "- daysToKeep"] by simp
  then have "MakeDate (MakeDay (YearFromTime ?lt) (MonthFromTime ?lt) (DateFromTime ?lt - daysToKeep))
                      (TimeWithinDay ?lt) = ?lt - daysToKeep * msPerDay"
    using MakeDate_Day[of ?lt "- daysToKeep"] by simp
  then show ?thesis
    by (simp add: cutoffTimestamp_def setDate_def getDate_def Let_def)
qed

subsection \<open>Header lines and the cutoff\<close>

text \<open>
  Claim C1, as amended. A line that matches the header pattern and whose timestamp the
  parser reads as the instant \<open>t\<close> is kept if and only if \<open>t\<close> is not before the cutoff,
  equality included; the lines after it are scanned with \<^verbatim>\<open>keepCurrentBlock\<close> set to that
  decision. The cutoff is the local wall-clock time of \<open>now\<close> moved back by \<open>daysToKeep\<close>
  whole days and read back as a UTC instant. This needs the cutoff to be a date that
  JavaScript can represent (at most 8.64e15 ms from the epoch): the hypothesis on the
  absolute value. The statement holds for every parser, every zone, every position of the
  line in the file and every integer \<open>daysToKeep\<close>.
\<close>

theorem header_kept_iff_within_window:
  assumes "header_match line = Some ts"
      and "parse (ts @ '' UTC'') = Some t"
      and "\<bar>UTC LocalTZA (LocalTime LocalTZA now - daysToKeep * msPerDay)\<bar> \<le> 8640000000000000"
  shows "cutoffTimestamp LocalTZA now daysToKeep
           = Some (UTC LocalTZA (LocalTime LocalTZA now - daysToKeep * msPerDay))
       \<and> output_lines (scan parse (cutoffTimestamp LocalTZA now daysToKeep) (before @ line # rest)) =
           output_lines (scan parse (cutoffTimestamp LocalTZA now daysToKeep) before)
           @ (if UTC LocalTZA (LocalTime LocalTZA now - daysToKeep * msPerDay) \<le> t
              then [line] else [])
           @ kept_from parse (cutoffTimestamp LocalTZA now daysToKeep)
               (UTC LocalTZA (LocalTime LocalTZA now - daysToKeep * msPerDay) \<le> t) rest"
proof -
  let ?c = "UTC LocalTZA (LocalTime LocalTZA now - daysToKeep * msPerDay)"
  have c: "cutoffTimestamp LocalTZA now daysToKeep = Some ?c"
    using assms(3) by (simp add: cutoffTimestamp_eq TimeClip_def)
  have h: "is_header line" using assms(1) by (simp add: is_header_def)
  have k: "header_kept parse (Some ?c) line = (?c \<le> t)"
    using assms(1,2) by (simp add: header_kept_def)
  show ?thesis
    unfolding c by (simp add: scan_output kept_around h k)
qed

text \<open>
  The instance: a host on UTC, 30 days of retention and a header stamped 2024-06-01
  00:00:00. Run at 2024-07-01 00:00:00.000 the cutoff is the header's own instant and the
  line is kept; run one millisecond later it is dropped.
\<close>

theorem header_kept_iff_within_window_witness:
  "output_lines (scan utc_parse (cutoffTimestamp zone_UTC 1719792000000 30)
      ([] @ ''Heartbeat update successful at 2024-06-01 00:00:00 UTC'' # []))
   = [''Heartbeat update successful at 2024-06-01 00:00:00 UTC'']
   \<and> output_lines (scan utc_parse (cutoffTimestamp zone_UTC 1719792000001 30)
      ([] @ ''Heartbeat update successful at 2024-06-01 00:00:00 UTC'' # []))
   = []"
proof -
  let ?l = "''Heartbeat update successful at 2024-06-01 00:00:00 UTC''"
  have h1: "header_match ?l = Some ''2024-06-01 00:00:00''" by code_simp
  have h2: "utc_parse (''2024-06-01 00:00:00'' @ '' UTC'') = Some 1717200000000" by code_simp
  have c1: "UTC zone_UTC (LocalTime zone_UTC 1719792000000 - 30 * msPerDay) = 1717200000000"
    by (simp add: UTC_def LocalTime_def zone_UTC_def msPerDay_def)
  have c2: "UTC zone_UTC (LocalTime zone_UTC 1719792000001 - 30 * msPerDay) = 1717200000001"
    by (simp add: UTC_def LocalTime_def zone_UTC_def msPerDay_def)
  have h3: "\<bar>UTC zone_UTC (LocalTime zone_UTC 1719792000000 - 30 * msPerDay)\<bar> \<le> 8640000000000000"
    unfolding c1 by simp
  have h4: "\<bar>UTC zone_UTC (LocalTime zone_UTC 1719792000001 - 30 * msPerDay)\<bar> \<le> 8640000000000000"
    unfolding c2 by simp
  have e: "output_lines (scan utc_parse c []) = []" for c
    by (simp add: scan_def scan_from_def initial_def)
  from header_kept_iff_within_window[where parse = utc_parse and before = "[]" and rest = "[]",
         OF h1 h2 h3, THEN conjunct2]
  have 1: "output_lines (scan utc_parse (cutoffTimestamp zone_UTC 1719792000000 30) ([] @ ?l # [])) = [?l]"
    unfolding c1 by (simp add: e kept_from_Nil)
  from header_kept_iff_within_window[where parse = utc_parse and before = "[]" and rest = "[]",
         OF h1 h2 h4, THEN conjunct2]
  have 2: "output_lines (scan utc_parse (cutoffTimestamp zone_UTC 1719792000001 30) ([] @ ?l # [])) = []"
    unfolding c2 by (simp add: e kept_from_Nil)
  from 1 2 show ?thesis by (rule conjI)
qed

text \<open>
  Claim C1 as it is worded, for every \<open>retentionDays \<ge> 0\<close>, fails when the window is so
  long that the cutoff leaves the range of dates: with 200000000 days \<^verbatim>\<open>setDate\<close> makes
  \<^verbatim>\<open>cutoffDate\<close> an invalid date, the cutoff is NaN, every comparison with it is false,
  and a header from the same day as \<open>now\<close> is dropped although its instant is far after
  \<open>now\<close> minus 200000000 days.
\<close>

theorem header_dropped_beyond_date_range:
  "header_match ''Heartbeat update successful at 2024-06-01 00:00:00 UTC'' = Some ''2024-06-01 00:00:00''
   \<and> utc_parse ''2024-06-01 00:00:00 UTC'' = Some 1717200000000
   \<and> UTC zone_UTC (LocalTime zone_UTC 1717243200000 - 200000000 * msPerDay) \<le> 1717200000000
   \<and> output_lines (scan utc_parse (cutoffTimestamp zone_UTC 1717243200000 200000000)
        [''Heartbeat update successful at 2024-06-01 00:00:00 UTC'']) = []"
  by code_simp

subsection \<open>Continuation lines\<close>

text \<open>
  Claim C2. A line that does not match the header pattern is kept if and only if the most
  recently seen header line was kept, which is the value of \<^verbatim>\<open>keepCurrentBlock\<close> after the
  lines before it; the scan goes on with that value unchanged. When no header line comes
  before it, the line is dropped.
\<close>

theorem continuation_follows_owner:
  assumes "header_match line = None"
  shows "output_lines (scan parse cutoff (before @ line # rest)) =
           output_lines (scan parse cutoff before)
           @ (if owner_kept parse cutoff before then [line] else [])
           @ kept_from parse cutoff (owner_kept parse cutoff before) rest
       \<and> keepCurrentBlock (scan parse cutoff before) = owner_kept parse cutoff before
       \<and> ((\<forall>l \<in> set before. header_match l = None) \<longrightarrow>
           output_lines (scan parse cutoff (before @ [line])) = [])"
proof (intro conjI)
  have nh: "\<not> is_header line" using assms by (simp add: is_header_def)
  show "output_lines (scan parse cutoff (before @ line # rest)) =
           output_lines (scan parse cutoff before)
           @ (if owner_kept parse cutoff before then [line] else [])
           @ kept_from parse cutoff (owner_kept parse cutoff before) rest"
    by (simp add: scan_output kept_around nh)
  show "keepCurrentBlock (scan parse cutoff before) = owner_kept parse cutoff before"
    by (rule scan_keep)
  show "(\<forall>l \<in> set before. header_match l = None) \<longrightarrow>
           output_lines (scan parse cutoff (before @ [line])) = []"
  proof
    assume a: "\<forall>l \<in> set before. header_match l = None"
    then have f: "filter is_header before = []"
      by (simp add: is_header_def filter_empty_conv)
    have "kept_from parse cutoff False before = []"
      using a by (induction before) (simp_all add: kept_from_Nil kept_from_Cons is_header_def)
    then show "output_lines (scan parse cutoff (before @ [line])) = []"
      by (simp add: scan_output kept_around nh owner_kept_def f kept_from_Nil)
  qed
qed

text \<open>
  The instance: a stray line before the first header is dropped, the detail line after a
  kept header is kept, and the lines of an expired entry after it are dropped.
\<close>

theorem continuation_follows_owner_witness:
  "output_lines (scan utc_parse (Some 1714608000000)
       ([''stray line'', ''Heartbeat update successful at 2024-06-01 00:00:00 UTC'']
        @ ''  detail line'' # [''Heartbeat update failed at 2024-01-01 00:00:00 UTC'', ''  lost'']))
     = [''Heartbeat update successful at 2024-06-01 00:00:00 UTC'', ''  detail line'']
   \<and> output_lines (scan utc_parse (Some 1714608000000) ([] @ [''  detail line''])) = []"
proof -
  have h: "header_match ''  detail line'' = None" by code_simp
  have o: "owner_kept utc_parse (Some 1714608000000)
             [''stray line'', ''Heartbeat update successful at 2024-06-01 00:00:00 UTC''] = True"
    by code_simp
  have b: "output_lines (scan utc_parse (Some 1714608000000)
             [''stray line'', ''Heartbeat update successful at 2024-06-01 00:00:00 UTC''])
           = [''Heartbeat update successful at 2024-06-01 00:00:00 UTC'']"
    by code_simp
  have r: "kept_from utc_parse (Some 1714608000000) True
             [''Heartbeat update failed at 2024-01-01 00:00:00 UTC'', ''  lost''] = []"
    by code_simp
  have e: "\<forall>l \<in> set ([]::string list). header_match l = None" by simp
  from continuation_follows_owner[OF h, of utc_parse "Some 1714608000000"
         "[''stray line'', ''Heartbeat update successful at 2024-06-01 00:00:00 UTC'']"
         "[''Heartbeat update failed at 2024-01-01 00:00:00 UTC'', ''  lost'']"]
  have 1: "output_lines (scan utc_parse (Some 1714608000000)
       ([''stray line'', ''Heartbeat update successful at 2024-06-01 00:00:00 UTC'']
        @ ''  detail line'' # [''Heartbeat update failed at 2024-01-01 00:00:00 UTC'', ''  lost'']))
     = [''Heartbeat update successful at 2024-06-01 00:00:00 UTC'', ''  detail line'']"
    by (simp only: o b r if_True append.simps)
  from continuation_follows_owner[OF h, of utc_parse "Some 1714608000000" "[]" "[]"] e
  have 2: "output_lines (scan utc_parse (Some 1714608000000) ([] @ [''  detail line''])) = []"
    by blast
  from 1 2 show ?thesis by (rule conjI)
qed

subsection \<open>Timestamps that cannot be read\<close>

text \<open>
  Claim C3, as amended. A line that matches the header pattern but whose timestamp the
  parser cannot read (it returns NaN) is treated as expired: the line is dropped,
  \<^verbatim>\<open>keepCurrentBlock\<close> becomes false, the continuation lines that follow it are dropped
  too, and the scan goes on; the step is a total function, so there is no error to
  propagate.
\<close>

theorem unreadable_header_dropped:
  assumes "header_match line = Some ts"
      and "parse (ts @ '' UTC'') = None"
      and "\<forall>l \<in> set conts. header_match l = None"
  shows "step parse cutoff st line = st\<lparr>keepCurrentBlock := False\<rparr>
       \<and> output_lines (scan parse cutoff (before @ line # conts @ rest)) =
           output_lines (scan parse cutoff before) @ kept_from parse cutoff False rest"
proof (intro conjI)
  show "step parse cutoff st line = st\<lparr>keepCurrentBlock := False\<rparr>"
    using assms(1,2) by (simp add: step_def)
  have h: "is_header line" using assms(1) by (simp add: is_header_def)
  have k: "\<not> header_kept parse cutoff line"
    using assms(1,2) by (simp add: header_kept_def)
  have d: "kept_from parse cutoff False (conts @ rest) = kept_from parse cutoff False rest"
    using assms(3) by (induction conts) (simp_all add: kept_from_Cons is_header_def)
  show "output_lines (scan parse cutoff (before @ line # conts @ rest)) =
           output_lines (scan parse cutoff before) @ kept_from parse cutoff False rest"
    by (simp add: scan_output kept_around h k d)
qed

text \<open>
  The instance: month 13 matches \<^verbatim>\<open>\d{2}\<close> and is no month.
\<close>

theorem unreadable_header_dropped_witness:
  "step utc_parse (Some 0) \<lparr>keepCurrentBlock = True, output_lines = []\<rparr>
       ''Heartbeat update successful at 2024-13-45 25:61:61 UTC''
     = \<lparr>keepCurrentBlock = False, output_lines = []\<rparr>
   \<and> output_lines (scan utc_parse (Some 0)
        ([''Heartbeat update successful at 2024-06-01 00:00:00 UTC'']
         @ ''Heartbeat update successful at 2024-13-45 25:61:61 UTC'' # [''  detail line''] @ []))
     = [''Heartbeat update successful at 2024-06-01 00:00:00 UTC'']"
proof -
  let ?bad = "''Heartbeat update successful at 2024-13-45 25:61:61 UTC''"
  have h1: "header_match ?bad = Some ''2024-13-45 25:61:61''" by code_simp
  have h2: "utc_parse (''2024-13-45 25:61:61'' @ '' UTC'') = None" by code_simp
  have h3: "\<forall>l \<in> set [''  detail line'']. header_match l = None" by code_simp
  have b: "output_lines (scan utc_parse (Some 0)
             [''Heartbeat update successful at 2024-06-01 00:00:00 UTC''])
           = [''Heartbeat update successful at 2024-06-01 00:00:00 UTC'']"
    by code_simp
  from unreadable_header_dropped[where parse = utc_parse and cutoff = "Some 0"
         and st = "\<lparr>keepCurrentBlock = True, output_lines = []\<rparr>"
         and before = "[''Heartbeat update successful at 2024-06-01 00:00:00 UTC'']"
         and rest = "[]", OF h1 h2 h3]
  show ?thesis
    by (simp add: b kept_from_Nil)
qed

text \<open>
  Claim C3 as it is worded takes \<^verbatim>\<open>at banana UTC\<close> as its example of an unparseable
  timestamp. That line does not match the header pattern at all (\<^verbatim>\<open>banana\<close> is not
  \<^verbatim>\<open>\d{4}-\d{2}-\d{2}\<close> ...), so the loop takes it for a continuation line: after a kept
  header it is kept, and \<^verbatim>\<open>keepCurrentBlock\<close> stays true.
\<close>

theorem banana_line_kept:
  "header_match ''at banana UTC'' = None
   \<and> scan utc_parse (cutoffTimestamp zone_UTC 1717243200000 30)
        [''Heartbeat update successful at 2024-06-01 00:00:00 UTC'', ''at banana UTC'']
     = \<lparr>keepCurrentBlock = True,
        output_lines = [''Heartbeat update successful at 2024-06-01 00:00:00 UTC'', ''at banana UTC'']\<rparr>"
  by code_simp

subsection \<open>The output is a subsequence of the input, plus the trailer\<close>

text \<open>
  Claim C10. The output without its last two lines is a subsequence of the input lines:
  the kept lines are input lines, unchanged, in their order, each input position used at
  most once. The last two lines are the trailer pair.
\<close>

theorem kept_lines_subseq:
  "subseq (take (length (trimmed_lines parse LocalTZA now daysToKeep lines) - 2)
                (trimmed_lines parse LocalTZA now daysToKeep lines)) lines
   \<and> drop (length (trimmed_lines parse LocalTZA now daysToKeep lines) - 2)
          (trimmed_lines parse LocalTZA now daysToKeep lines) = trailer now daysToKeep
   \<and> length (trailer now daysToKeep) = 2"
  by (simp add: trimmed_lines_def scan_output trailer_def kept_from_subseq)

subsection \<open>The calendar\<close>

lemma div_bounds:
  fixes a :: int
  assumes "0 < k"
  shows "k * (a div k) \<le> a" and "a < k * (a div k) + k"
proof -
  have "a = k * (a div k) + a mod k" by simp
  moreover have "0 \<le> a mod k" "a mod k < k" using assms by simp_all
  ultimately show "k * (a div k) \<le> a" and "a < k * (a div k) + k" by linarith+
qed

lemma DayFromYear_estimate:
  "146097 * (y - 1970) - 506 \<le> 400 * DayFromYear y" 
  "400 * DayFromYear y \<le> 146097 * (y - 1970) + 589"
proof -
  define a where "a = (y - 1969) div 4"
  define b where "b = (y - 1901) div 100"
  define c where "c = (y - 1601) div 400"
  have a: "4 * a \<le> y - 1969" "y - 1969 < 4 * a + 4"
    unfolding a_def using div_bounds[of 4 "y - 1969"] by simp_all
  have b: "100 * b \<le> y - 1901" "y - 1901 < 100 * b + 100"
    unfolding b_def using div_bounds[of 100 "y - 1901"] by simp_all
  have c: "400 * c \<le> y - 1601" "y - 1601 < 400 * c + 400"
    unfolding c_def using div_bounds[of 400 "y - 1601"] by simp_all
  have d: "DayFromYear y = 365 * (y - 1970) + a - b + c"
    by (simp add: DayFromYear_def a_def b_def c_def)
  show "146097 * (y - 1970) - 506 \<le> 400 * DayFromYear y" 
    unfolding d using a b c by (simp add: algebra_simps)
  show "400 * DayFromYear y \<le> 146097 * (y - 1970) + 589"
    unfolding d using a b c by (simp add: algebra_simps)
qed

lemma div_next:
  fixes a k :: int
  assumes "0 < k"
  shows "(a + 1) div k = a div k + (if (a + 1) mod k = 0 then 1 else 0)"
proof (cases "a mod k = k - 1")
  case True
  have "a = k * (a div k) + a mod k" by simp
  then have "a = k * (a div k) + (k - 1)" using True by simp
  then have "a + 1 = k * (a div k + 1) + 0"
    by (simp add: algebra_simps)
  then have "(a + 1) div k = a div k + 1" "(a + 1) mod k = 0"
    using assms int_div_pos_eq[of "a + 1" k "a div k + 1" 0]
          int_mod_pos_eq[of "a + 1" k "a div k + 1" 0] by simp_all
  then show ?thesis by simp
next
  case False
  have r: "0 \<le> a mod k" "a mod k < k" using assms by simp_all
  have e: "a + 1 = k * (a div k) + (a mod k + 1)"
    using mult_div_mod_eq[of k a] by simp
  have "(a + 1) div k = a div k" "(a + 1) mod k = a mod k + 1"
    using int_div_pos_eq[OF e] int_mod_pos_eq[OF e] r False by simp_all
  then show ?thesis using r by simp
qed

lemma mod_shift:
  fixes y k c :: int
  assumes "c mod k = 0"
  shows "((y - c) mod k = 0) = (y mod k = 0)"
proof -
  have "(y - c) mod k = (y mod k - c mod k) mod k" by (rule mod_diff_eq[symmetric])
  then show ?thesis using assms by simp
qed

lemma DayFromYear_Suc: "DayFromYear (y + 1) = DayFromYear y + DaysInYear y"
proof -
  have 4: "(y + 1 - 1969) div 4 = (y - 1969) div 4 + (if y mod 4 = 0 then 1 else 0)"
    using div_next[of 4 "y - 1969"] mod_shift[of 1968 4 y] by (simp add: algebra_simps)
  have 100: "(y + 1 - 1901) div 100 = (y - 1901) div 100 + (if y mod 100 = 0 then 1 else 0)"
    using div_next[of 100 "y - 1901"] mod_shift[of 1900 100 y] by (simp add: algebra_simps)
  have 400: "(y + 1 - 1601) div 400 = (y - 1601) div 400 + (if y mod 400 = 0 then 1 else 0)"
    using div_next[of 400 "y - 1601"] mod_shift[of 1600 400 y] by (simp add: algebra_simps)
  have m1: "y mod 100 = 0 \<Longrightarrow> y mod 4 = 0"
    using dvd_trans[of 4 100 y] by (simp add: mod_eq_0_iff_dvd)
  have m2: "y mod 400 = 0 \<Longrightarrow> y mod 100 = 0"
    using dvd_trans[of 100 400 y] by (simp add: mod_eq_0_iff_dvd)
  show ?thesis
    unfolding DayFromYear_def DaysInYear_def 4 100 400
    using m1 m2 by auto
qed

lemma YearFromDay_bounds:
  "DayFromYear (YearFromDay d) \<le> d \<and> d < DayFromYear (YearFromDay d + 1)"
proof -
  define q where "q = (400 * d) div 146097"
  have q: "146097 * q \<le> 400 * d" "400 * d < 146097 * q + 146097"
    unfolding q_def using div_bounds[of 146097 "400 * d"] by simp_all
  have A: "DayFromYear (1970 + q - 1) \<le> d"
    using DayFromYear_estimate(2)[of "1970 + q - 1"] q by (simp add: algebra_simps)
  have B: "d < DayFromYear (1970 + q + 1 + 1)"
    using DayFromYear_estimate(1)[of "1970 + q + 1 + 1"] q by (simp add: algebra_simps)
  show ?thesis
    unfolding YearFromDay_def q_def[symmetric] Let_def
    using A B by (auto simp: algebra_simps)
qed

lemma DaysInYear_range: "DaysInYear y = 365 \<or> DaysInYear y = 366"
  by (simp add: DaysInYear_def)

lemma DayFromYear_mono_nat: "DayFromYear y \<le> DayFromYear (y + int n)"
proof (induction n)
  case 0
  show ?case by simp
next
  case (Suc n)
  have "DayFromYear (y + int (Suc n)) = DayFromYear (y + int n) + DaysInYear (y + int n)"
    using DayFromYear_Suc[of "y + int n"] by (simp add: algebra_simps)
  then show ?case
    using Suc DaysInYear_range[of "y + int n"] by linarith
qed

lemma DayFromYear_mono: "y \<le> z \<Longrightarrow> DayFromYear y \<le> DayFromYear z"
  using DayFromYear_mono_nat[of y "nat (z - y)"] by simp

lemma YearFromDay_range:
  assumes "DayFromYear lo \<le> d" and "d < DayFromYear hi"
  shows "lo \<le> YearFromDay d \<and> YearFromDay d < hi"
proof -
  have b: "DayFromYear (YearFromDay d) \<le> d" "d < DayFromYear (YearFromDay d + 1)"
    using YearFromDay_bounds[of d] by simp_all
  have "\<not> YearFromDay d + 1 \<le> lo"
    using DayFromYear_mono[of "YearFromDay d + 1" lo] b assms by linarith
  moreover have "\<not> hi \<le> YearFromDay d"
    using DayFromYear_mono[of hi "YearFromDay d"] b assms by linarith
  ultimately show ?thesis by linarith
qed

lemma DayWithinYear_range:
  "0 \<le> DayWithinYear t \<and> DayWithinYear t < DaysInYear (YearFromTime t)"
  using YearFromDay_bounds[of "Day t"] DayFromYear_Suc[of "YearFromTime t"]
  by (simp add: DayWithinYear_def YearFromTime_def)

lemma DayWithinYear_leap:
  "0 \<le> DayWithinYear t \<and> DayWithinYear t < 365 + InLeapYear t"
  using DayWithinYear_range[of t] DaysInYear_range[of "YearFromTime t"]
  by (auto simp: InLeapYear_def)

lemma InLeapYear_range: "InLeapYear t = 0 \<or> InLeapYear t = 1"
  by (simp add: InLeapYear_def)

lemma DateFromTime_range: "1 \<le> DateFromTime t \<and> DateFromTime t \<le> 31"
  using DayWithinYear_leap[of t] InLeapYear_range[of t]
  by (auto simp: DateFromTime_def MonthFromTime_def month_start_def Let_def)

lemma time_fields_range:
  "0 \<le> HourFromTime t \<and> HourFromTime t \<le> 23"
  "0 \<le> MinFromTime t \<and> MinFromTime t \<le> 59"
  "0 \<le> SecFromTime t \<and> SecFromTime t \<le> 59"
  "0 \<le> msFromTime t \<and> msFromTime t \<le> 999"
  by (simp_all add: HourFromTime_def MinFromTime_def SecFromTime_def msFromTime_def)

lemma MakeTime_of_fields:
  "MakeTime (HourFromTime t) (MinFromTime t) (SecFromTime t) 0 = TimeWithinDay t - t mod 1000"
proof -
  define a where "a = t div 1000"
  define b where "b = a div 60"
  define c where "c = b div 60"
  define e where "e = c div 24"
  have d1: "t div 60000 = b"
    using zdiv_zmult2_eq[of 1000 t 60] by (simp add: a_def b_def)
  have d2: "t div 3600000 = c"
    using zdiv_zmult2_eq[of 60000 t 60] d1 by (simp add: c_def)
  have d3: "t div 86400000 = e"
    using zdiv_zmult2_eq[of 3600000 t 24] d2 by (simp add: e_def)
  have ta: "t = 1000 * a + t mod 1000" by (simp add: a_def)
  have ab: "a = 60 * b + a mod 60" by (simp add: b_def)
  have bc: "b = 60 * c + b mod 60" by (simp add: c_def)
  have ce: "c = 24 * e + c mod 24" by (simp add: e_def)
  have tw: "TimeWithinDay t = t - 86400000 * e"
    using d3 mult_div_mod_eq[of 86400000 t] by (simp add: TimeWithinDay_def msPerDay_def)
  have "MakeTime (HourFromTime t) (MinFromTime t) (SecFromTime t) 0
        = (c mod 24) * 3600000 + (b mod 60) * 60000 + (a mod 60) * 1000"
    by (simp add: MakeTime_def HourFromTime_def MinFromTime_def SecFromTime_def d1 d2 a_def)
  also have "\<dots> = t - 86400000 * e - t mod 1000"
    using ta ab bc ce by linarith
  finally show ?thesis by (simp add: tw)
qed

subsection \<open>Printed numbers and dates, read back\<close>

lemma digit_char_cases:
  "digit_char n = CHR ''0'' \<and> n mod 10 = 0 \<or> digit_char n = CHR ''1'' \<and> n mod 10 = 1
   \<or> digit_char n = CHR ''2'' \<and> n mod 10 = 2 \<or> digit_char n = CHR ''3'' \<and> n mod 10 = 3
   \<or> digit_char n = CHR ''4'' \<and> n mod 10 = 4 \<or> digit_char n = CHR ''5'' \<and> n mod 10 = 5
   \<or> digit_char n = CHR ''6'' \<and> n mod 10 = 6 \<or> digit_char n = CHR ''7'' \<and> n mod 10 = 7
   \<or> digit_char n = CHR ''8'' \<and> n mod 10 = 8 \<or> digit_char n = CHR ''9'' \<and> n mod 10 = 9"
proof -
  define m where "m = n mod 10"
  have "m < 10" by (simp add: m_def)
  then have "m = 0 \<or> m = 1 \<or> m = 2 \<or> m = 3 \<or> m = 4 \<or> m = 5 \<or> m = 6 \<or> m = 7 \<or> m = 8 \<or> m = 9"
    by presburger
  then show ?thesis
    unfolding digit_char_def m_def[symmetric] by (elim disjE) simp_all
qed

lemma is_digit_digit_char: "is_digit (digit_char n)"
  using digit_char_cases[of n] by (auto simp: is_digit_def)

lemma digit_val_digit_char: "digit_val (digit_char n) = int (n mod 10)"
  using digit_char_cases[of n] by (auto simp: digit_val_def)

lemma is_digit_neq:
  "is_digit c \<Longrightarrow> c \<noteq> CHR ''T''" "is_digit c \<Longrightarrow> c \<noteq> CHR 0x0A"
  "is_digit c \<Longrightarrow> \<not> is_space c" "is_digit c \<Longrightarrow> c \<noteq> CHR ''a''"
  by (auto simp: is_digit_def is_space_def)

lemma show_digits_1: "n < 10 \<Longrightarrow> show_digits (Suc k) n = [digit_char n]"
  by simp

lemma show_digits_2:
  "10 \<le> n \<Longrightarrow> n < 100 \<Longrightarrow> show_digits (Suc (Suc k)) n = [digit_char (n div 10), digit_char n]"
  by simp

lemma show_digits_3:
  "100 \<le> n \<Longrightarrow> n < 1000 \<Longrightarrow>
   show_digits (Suc (Suc (Suc k))) n = [digit_char (n div 100), digit_char (n div 10), digit_char n]"
  using show_digits_2[of "n div 10" k] by (simp add: div_mult2_eq[symmetric])

lemma show_digits_4:
  "1000 \<le> n \<Longrightarrow> n < 10000 \<Longrightarrow>
   show_digits (Suc (Suc (Suc (Suc k)))) n =
     [digit_char (n div 1000), digit_char (n div 100), digit_char (n div 10), digit_char n]"
  using show_digits_3[of "n div 10" k] by (simp add: div_mult2_eq[symmetric])

lemma digit_char_0: "n mod 10 = 0 \<Longrightarrow> digit_char n = CHR ''0''"
  by (simp add: digit_char_def)

lemma replicate_small:
  "replicate 2 c = [c, c]" "replicate 3 c = [c, c, c]"
  by (simp_all add: numeral_2_eq_2 numeral_3_eq_3)

lemma small_div:
  fixes m :: nat
  shows "m < 10 \<Longrightarrow> m div 10 = 0" "m < 100 \<Longrightarrow> m div 100 = 0" "m < 1000 \<Longrightarrow> m div 1000 = 0"
  by simp_all

lemma pad2:
  assumes "0 \<le> n" "n < 100"
  shows "pad 2 n = [digit_char (nat n div 10), digit_char (nat n)]"
proof (cases "nat n < 10")
  case True
  then have "show_nat (nat n) = [digit_char (nat n)]" by (simp add: show_nat_def)
  then show ?thesis using True by (simp add: pad_def digit_char_0)
next
  case False
  then have k: "Suc (nat n) = Suc (Suc (nat n - 1))" by linarith
  have "show_nat (nat n) = [digit_char (nat n div 10), digit_char (nat n)]"
    unfolding show_nat_def by (subst k, rule show_digits_2) (use False assms in simp_all)
  then show ?thesis by (simp add: pad_def)
qed

lemma pad4:
  assumes "0 \<le> n" "n < 10000"
  shows "pad 4 n = [digit_char (nat n div 1000), digit_char (nat n div 100),
                    digit_char (nat n div 10), digit_char (nat n)]"
proof -
  consider "nat n < 10" | "10 \<le> nat n \<and> nat n < 100" | "100 \<le> nat n \<and> nat n < 1000"
    | "1000 \<le> nat n \<and> nat n < 10000"
    using assms by linarith
  then show ?thesis
  proof cases
    case 1
    then have "show_nat (nat n) = [digit_char (nat n)]" by (simp add: show_nat_def)
    then show ?thesis using 1 by (simp add: pad_def digit_char_0 replicate_small)
  next
    case 2
    then have k: "Suc (nat n) = Suc (Suc (nat n - 1))" by linarith
    have "show_nat (nat n) = [digit_char (nat n div 10), digit_char (nat n)]"
      unfolding show_nat_def by (subst k, rule show_digits_2) (use 2 in simp_all)
    then show ?thesis using 2 by (simp add: pad_def digit_char_0 replicate_small)
  next
    case 3
    then have k: "Suc (nat n) = Suc (Suc (Suc (nat n - 2)))" by linarith
    have "show_nat (nat n) = [digit_char (nat n div 100), digit_char (nat n div 10), digit_char (nat n)]"
      unfolding show_nat_def by (subst k, rule show_digits_3) (use 3 in simp_all)
    then show ?thesis using 3 by (simp add: pad_def digit_char_0 replicate_small)
  next
    case 4
    then have k: "Suc (nat n) = Suc (Suc (Suc (Suc (nat n - 3))))" by linarith
    have "show_nat (nat n) = [digit_char (nat n div 1000), digit_char (nat n div 100),
                               digit_char (nat n div 10), digit_char (nat n)]"
      unfolding show_nat_def by (subst k, rule show_digits_4) (use 4 in simp_all)
    then show ?thesis by (simp add: pad_def)
  qed
qed

lemma digit_val_of_int:
  "0 \<le> k \<Longrightarrow> digit_val (digit_char (nat k)) = k mod 10"
  by (simp add: digit_val_digit_char zmod_int)

lemma nat_div_int: "0 \<le> n \<Longrightarrow> nat n div numeral k = nat (n div numeral k)"
  by (simp add: nat_div_distrib)

lemma horner4:
  fixes m a b c r0 r1 r2 :: int
  assumes "m = 10 * a + r0" "a = 10 * b + r1" "b = 10 * c + r2"
  shows "10 * (10 * (10 * c + r2) + r1) + r0 = m"
  using assms by simp

lemma num_of_pad2:
  assumes "0 \<le> n" "n < 100"
  shows "num_of (pad 2 n) = n"
proof -
  have a: "0 \<le> n div 10" "n div 10 mod 10 = n div 10" using assms by simp_all
  have "num_of (pad 2 n) = 10 * (n div 10 mod 10) + n mod 10"
    using assms a(1) by (simp add: pad2 num_of_def nat_div_int digit_val_of_int)
  then show ?thesis using a(2) by simp
qed

lemma num_of_pad4:
  assumes "0 \<le> n" "n < 10000"
  shows "num_of (pad 4 n) = n"
proof -
  define a where "a = n div 10"
  define b where "b = a div 10"
  define c where "c = b div 10"
  have d2: "n div 100 = b" using zdiv_zmult2_eq[of 10 n 10] by (simp add: a_def b_def)
  have d3: "n div 1000 = c" using zdiv_zmult2_eq[of 100 n 10] d2 by (simp add: c_def)
  have c: "0 \<le> c" "c mod 10 = c" using assms d3[symmetric] by simp_all
  have nn: "0 \<le> a" "0 \<le> b" using assms by (simp_all add: a_def b_def)
  have e: "n = 10 * a + n mod 10" "a = 10 * b + a mod 10" "b = 10 * c + b mod 10"
    by (simp_all add: a_def b_def c_def)
  have "num_of (pad 4 n) = 10 * (10 * (10 * (c mod 10) + b mod 10) + a mod 10) + n mod 10"
    using assms nn c(1)
    by (simp add: pad4 num_of_def nat_div_int digit_val_of_int d2 d3 a_def[symmetric])
  also have "\<dots> = n"
    unfolding c(2) using e by (rule horner4)
  finally show ?thesis .
qed

lemma digits_2:
  "is_digit a \<Longrightarrow> is_digit b \<Longrightarrow> digits 2 (a # b # r) = Some ([a, b], r)"
  by (simp add: numeral_2_eq_2)

lemma digits_4:
  "is_digit a \<Longrightarrow> is_digit b \<Longrightarrow> is_digit c \<Longrightarrow> is_digit d \<Longrightarrow>
   digits 4 (a # b # c # d # r) = Some ([a, b, c, d], r)"
  by (simp add: numeral_eq_Suc)

lemma digits_pad2: "0 \<le> n \<Longrightarrow> n < 100 \<Longrightarrow> digits 2 (pad 2 n @ r) = Some (pad 2 n, r)"
  by (simp add: pad2 digits_2 is_digit_digit_char)

lemma digits_pad4: "0 \<le> n \<Longrightarrow> n < 10000 \<Longrightarrow> digits 4 (pad 4 n @ r) = Some (pad 4 n, r)"
  by (simp add: pad4 digits_4 is_digit_digit_char)

lemma lit_append: "lit p (p @ r) = Some r"
  by (simp add: lit_def)

lemma spaces1_space: "\<not> is_space c \<Longrightarrow> spaces1 (CHR '' '' # c # r) = Some ('' '', c # r)"
  by (simp add: spaces1_def is_space_def)

lemma pad2_Cons: "0 \<le> n \<Longrightarrow> n < 100 \<Longrightarrow> \<exists>a b. pad 2 n = [a, b] \<and> is_digit a \<and> is_digit b"
  by (simp add: pad2 is_digit_digit_char)

lemma pad4_Cons:
  "0 \<le> n \<Longrightarrow> n < 10000 \<Longrightarrow>
   \<exists>a b c d. pad 4 n = [a, b, c, d] \<and> is_digit a \<and> is_digit b \<and> is_digit c \<and> is_digit d"
  by (simp add: pad4 is_digit_digit_char)

lemma year_range:
  assumes "0 \<le> t" "t < 253402300800000"
  shows "1970 \<le> YearFromTime t \<and> YearFromTime t < 10000"
proof -
  have "0 \<le> Day t" using assms by (simp add: Day_def msPerDay_def)
  moreover have "Day t < 2932897"
    using assms by (simp add: Day_def msPerDay_def div_less_iff_less_mult)
  moreover have "DayFromYear 1970 = 0" "DayFromYear 10000 = 2932897"
    by (simp_all add: DayFromYear_def)
  ultimately show ?thesis
    unfolding YearFromTime_def
    using YearFromDay_range[of 1970 "Day t" 10000] by simp
qed

lemma formattedDate_stamp:
  assumes "0 \<le> t" "t < 253402300800000"
  shows "formattedDate t = stamp t"
proof -
  have y: "0 \<le> YearFromTime t" "YearFromTime t \<le> 9999" "YearFromTime t < 10000"
    using year_range[OF assms] by simp_all
  obtain y1 y2 y3 y4 where Y: "pad 4 (YearFromTime t) = [y1, y2, y3, y4]"
      "is_digit y1" "is_digit y2" "is_digit y3" "is_digit y4"
    using pad4_Cons[OF y(1,3)] by blast
  obtain m1 m2 where M: "pad 2 (MonthFromTime t + 1) = [m1, m2]" "is_digit m1" "is_digit m2"
    using pad2_Cons[of "MonthFromTime t + 1"] MonthFromTime_range[of t] by force
  obtain d1 d2 where D: "pad 2 (DateFromTime t) = [d1, d2]" "is_digit d1" "is_digit d2"
    using pad2_Cons[of "DateFromTime t"] DateFromTime_range[of t] by force
  obtain h1 h2 where H: "pad 2 (HourFromTime t) = [h1, h2]"
    using pad2_Cons[of "HourFromTime t"] time_fields_range(1)[of t] by force
  obtain i1 i2 where I: "pad 2 (MinFromTime t) = [i1, i2]"
    using pad2_Cons[of "MinFromTime t"] time_fields_range(2)[of t] by force
  obtain s1 s2 where S: "pad 2 (SecFromTime t) = [s1, s2]"
    using pad2_Cons[of "SecFromTime t"] time_fields_range(3)[of t] by force
  show ?thesis
    using y Y M D H I S
    by (simp add: formattedDate_def toISOString_def stamp_def Let_def is_digit_neq)
qed

lemma utc_parse_stamp:
  assumes "0 \<le> t" "t < 253402300800000"
  shows "utc_parse (stamp t @ '' UTC'') = Some (t - t mod 1000)"
proof -
  have y: "0 \<le> YearFromTime t" "YearFromTime t < 10000"
    using year_range[OF assms] by simp_all
  have m: "0 \<le> MonthFromTime t + 1" "MonthFromTime t + 1 < 100"
          "1 \<le> MonthFromTime t + 1" "MonthFromTime t + 1 \<le> 12"
    using MonthFromTime_range[of t] by simp_all
  have d: "0 \<le> DateFromTime t" "DateFromTime t < 100"
          "1 \<le> DateFromTime t" "DateFromTime t \<le> 31"
    using DateFromTime_range[of t] by simp_all
  have h: "0 \<le> HourFromTime t" "HourFromTime t < 100" "HourFromTime t \<le> 23"
    using time_fields_range(1)[of t] by simp_all
  have i: "0 \<le> MinFromTime t" "MinFromTime t < 100" "MinFromTime t \<le> 59"
    using time_fields_range(2)[of t] by simp_all
  have s: "0 \<le> SecFromTime t" "SecFromTime t < 100" "SecFromTime t \<le> 59"
    using time_fields_range(3)[of t] by simp_all
  obtain h1 h2 where H: "pad 2 (HourFromTime t) = [h1, h2]" "is_digit h1" "is_digit h2"
    using pad2_Cons[OF h(1,2)] by blast
  have sp: "spaces1 ('' '' @ pad 2 (HourFromTime t) @ r) = Some ('' '', pad 2 (HourFromTime t) @ r)" for r
    using H by (simp add: spaces1_space is_digit_neq)
  have day: "MakeDay (YearFromTime t) (MonthFromTime t) (DateFromTime t) = Day t"
    using MakeDay_of_fields[of t 0] by simp
  have val: "MakeDate (Day t) (MakeTime (HourFromTime t) (MinFromTime t) (SecFromTime t) 0)
             = t - t mod 1000"
    using MakeDate_Day[of t 0] by (simp add: MakeTime_of_fields MakeDate_def algebra_simps)
  have r: "0 \<le> t mod 1000" "t mod 1000 < 1000" by simp_all
  have clip: "TimeClip (t - t mod 1000) = Some (t - t mod 1000)"
    using assms r by (simp add: TimeClip_def)
  have p: "utc_parse (pad 4 (YearFromTime t) @ ''-'' @ pad 2 (MonthFromTime t + 1) @ ''-''
                      @ pad 2 (DateFromTime t) @ '' '' @ pad 2 (HourFromTime t) @ '':''
                      @ pad 2 (MinFromTime t) @ '':'' @ pad 2 (SecFromTime t) @ '' UTC'')
           = Some (t - t mod 1000)"
    unfolding utc_parse_def
    apply (simp only: digits_pad4[OF y] bind.bind_lunit prod.case)
    apply (simp only: lit_append[of "''-''"] bind.bind_lunit)
    apply (simp only: digits_pad2[OF m(1,2)] bind.bind_lunit prod.case)
    apply (simp only: lit_append[of "''-''"] bind.bind_lunit)
    apply (simp only: digits_pad2[OF d(1,2)] bind.bind_lunit prod.case)
    apply (simp only: sp bind.bind_lunit prod.case)
    apply (simp only: digits_pad2[OF h(1,2)] bind.bind_lunit prod.case)
    apply (simp only: lit_append[of "'':''"] bind.bind_lunit)
    apply (simp only: digits_pad2[OF i(1,2)] bind.bind_lunit prod.case)
    apply (simp only: lit_append[of "'':''"] bind.bind_lunit)
    apply (simp only: digits_pad2[OF s(1,2)] bind.bind_lunit prod.case)
    apply (insert MonthFromTime_range[of t])
    apply (simp add: num_of_pad2 num_of_pad4 y m d h i s day val clip)
    done
  then show ?thesis by (simp add: stamp_def)
qed

lemma match_here_not_a: "c \<noteq> CHR ''a'' \<Longrightarrow> match_here (c # s) = None"
  by (simp add: match_here_def lit_def)

lemma match_here_not_at: "c \<noteq> CHR ''t'' \<Longrightarrow> match_here (a # c # s) = None"
  by (simp add: match_here_def lit_def)

lemma header_match_skip:
  "match_here (c # s) = None \<Longrightarrow> header_match (c # s) = header_match s"
  by simp

lemma header_match_no_a:
  "\<forall>c \<in> set d. c \<noteq> CHR ''a'' \<Longrightarrow> header_match (d @ r) = header_match r"
  by (induction d) (simp_all add: match_here_not_a)

lemma match_here_stamp:
  assumes "0 \<le> t" "t < 253402300800000"
  shows "match_here (''at '' @ stamp t @ '' UTC'') = Some (stamp t)"
proof -
  have y: "0 \<le> YearFromTime t" "YearFromTime t < 10000"
    using year_range[OF assms] by simp_all
  have m: "0 \<le> MonthFromTime t + 1" "MonthFromTime t + 1 < 100"
    using MonthFromTime_range[of t] by simp_all
  have d: "0 \<le> DateFromTime t" "DateFromTime t < 100"
    using DateFromTime_range[of t] by simp_all
  have h: "0 \<le> HourFromTime t" "HourFromTime t < 100"
    using time_fields_range(1)[of t] by simp_all
  have i: "0 \<le> MinFromTime t" "MinFromTime t < 100"
    using time_fields_range(2)[of t] by simp_all
  have s: "0 \<le> SecFromTime t" "SecFromTime t < 100"
    using time_fields_range(3)[of t] by simp_all
  obtain y1 y2 y3 y4 where Y: "pad 4 (YearFromTime t) = [y1, y2, y3, y4]" "is_digit y1"
    using pad4_Cons[OF y] by blast
  obtain h1 h2 where H: "pad 2 (HourFromTime t) = [h1, h2]" "is_digit h1" "is_digit h2"
    using pad2_Cons[OF h] by blast
  have sp0: "spaces1 ('' '' @ pad 4 (YearFromTime t) @ r) = Some ('' '', pad 4 (YearFromTime t) @ r)" for r
    using Y by (simp add: spaces1_space is_digit_neq)
  have sp1: "spaces1 ('' '' @ pad 2 (HourFromTime t) @ r) = Some ('' '', pad 2 (HourFromTime t) @ r)" for r
    using H by (simp add: spaces1_space is_digit_neq)
  have sp2: "spaces1 '' UTC'' = Some ('' '', ''UTC'')"
    by (simp add: spaces1_def is_space_def)
  have "match_here (''at'' @ '' '' @ pad 4 (YearFromTime t) @ ''-'' @ pad 2 (MonthFromTime t + 1) @ ''-''
                      @ pad 2 (DateFromTime t) @ '' '' @ pad 2 (HourFromTime t) @ '':''
                      @ pad 2 (MinFromTime t) @ '':'' @ pad 2 (SecFromTime t) @ '' UTC'')
           = Some (stamp t)"
    unfolding match_here_def
    apply (simp only: lit_append[of "''at''"] bind.bind_lunit)
    apply (simp only: sp0 bind.bind_lunit prod.case)
    apply (simp only: digits_pad4[OF y] bind.bind_lunit prod.case)
    apply (simp only: lit_append[of "''-''"] bind.bind_lunit)
    apply (simp only: digits_pad2[OF m] bind.bind_lunit prod.case)
    apply (simp only: lit_append[of "''-''"] bind.bind_lunit)
    apply (simp only: digits_pad2[OF d] bind.bind_lunit prod.case)
    apply (simp only: sp1 bind.bind_lunit prod.case)
    apply (simp only: digits_pad2[OF h] bind.bind_lunit prod.case)
    apply (simp only: lit_append[of "'':''"] bind.bind_lunit)
    apply (simp only: digits_pad2[OF i] bind.bind_lunit prod.case)
    apply (simp only: lit_append[of "'':''"] bind.bind_lunit)
    apply (simp only: digits_pad2[OF s] bind.bind_lunit prod.case)
    apply (simp add: sp2 lit_def stamp_def)
    done
  then show ?thesis by (simp add: stamp_def)
qed

lemma header_match_trailer1:
  assumes "0 \<le> t" "t < 253402300800000"
  shows "header_match (''Heartbeat log maintenance successful at '' @ stamp t @ '' UTC'') = Some (stamp t)"
proof -
  have a: "match_here (''at log maintenance successful at '' @ r) = None" for r
    by (simp add: match_here_def lit_def spaces1_def is_space_def is_digit_def numeral_eq_Suc)
  have "header_match (''Heartbeat log maintenance successful '' @ (''at '' @ stamp t @ '' UTC''))
        = Some (stamp t)"
    using a[of "stamp t @ '' UTC''"] match_here_stamp[OF assms]
    by (simp add: match_here_not_a match_here_not_at)
  then show ?thesis by simp
qed

lemma set_show_digits: "set (show_digits k n) \<subseteq> set ''0123456789''"
proof (induction k arbitrary: n)
  case 0
  show ?case by simp
next
  case (Suc k)
  have "digit_char n \<in> set ''0123456789''" for n
    using is_digit_digit_char[of n] by (simp add: is_digit_def)
  then show ?case using Suc[of "n div 10"] by auto
qed

lemma set_show_int: "set (show_int i) \<subseteq> set ''-0123456789''"
  using set_show_digits[of "Suc (nat i)" "nat i"] set_show_digits[of "Suc (nat (- i))" "nat (- i)"]
  by (auto simp: show_int_def show_nat_def)

lemma header_match_trailer2:
  "header_match (''Removed entries older than '' @ show_int n @ '' days'') = None"
proof -
  have d: "\<forall>c \<in> set (show_int n). c \<noteq> CHR ''a''"
    using set_show_int[of n] by auto
  have e: "header_match '' days'' = None" by code_simp
  have "header_match (show_int n @ '' days'') = None"
    using header_match_no_a[OF d, of "'' days''"] e by simp
  then show ?thesis
    by (simp add: match_here_not_a match_here_not_at)
qed

lemma num_of_snoc: "num_of (ds @ [c]) = 10 * num_of ds + digit_val c"
  by (simp add: num_of_def)

lemma num_of_show_digits: "n \<le> k \<Longrightarrow> num_of (show_digits (Suc k) n) = int n"
proof (induction k arbitrary: n)
  case 0
  then show ?case by (simp add: num_of_def digit_val_digit_char)
next
  case (Suc k)
  show ?case
  proof (cases "n < 10")
    case True
    then show ?thesis by (simp add: num_of_def digit_val_digit_char)
  next
    case False
    then have "n div 10 \<le> k" using Suc.prems by simp
    then have "num_of (show_digits (Suc k) (n div 10)) = int (n div 10)" by (rule Suc.IH)
    moreover have "show_digits (Suc (Suc k)) n = show_digits (Suc k) (n div 10) @ [digit_char n]"
      using False by simp
    moreover have "10 * int (n div 10) + int (n mod 10) = int n"
      by (simp add: zdiv_int zmod_int)
    ultimately show ?thesis
      by (simp only: num_of_snoc digit_val_digit_char)
  qed
qed

lemma num_of_show_int: "0 \<le> n \<Longrightarrow> num_of (show_int n) = n"
  using num_of_show_digits[of "nat n" "nat n"] by (simp add: show_int_def show_nat_def)

lemma utc_parse_formattedDate:
  "0 \<le> now \<Longrightarrow> now < 253402300800000 \<Longrightarrow>
   utc_parse (formattedDate now @ '' UTC'') = Some (now - now mod 1000)"
  by (simp add: formattedDate_stamp utc_parse_stamp)

subsection \<open>Lines and files\<close>

lemma split_lines_not_Nil: "split_lines s \<noteq> []"
  by (induction s) (auto split: list.splits)

lemma split_lines_no_newline: "l \<in> set (split_lines s) \<Longrightarrow> CHR 0x0A \<notin> set l"
proof (induction s arbitrary: l)
  case Nil
  then show ?case by simp
next
  case (Cons c s)
  show ?case
  proof (cases "c = CHR 0x0A")
    case True
    then show ?thesis using Cons by auto
  next
    case False
    obtain x xs where x: "split_lines s = x # xs"
      using split_lines_not_Nil[of s] by (cases "split_lines s") auto
    then have "l = c # x \<or> l \<in> set xs" using Cons.prems False by simp
    then show ?thesis
      using Cons.IH[of x] Cons.IH[of l] x False by auto
  qed
qed

lemma split_lines_line: "CHR 0x0A \<notin> set l \<Longrightarrow> split_lines l = [l]"
  by (induction l) auto

lemma split_lines_append:
  "CHR 0x0A \<notin> set l \<Longrightarrow> split_lines (l @ CHR 0x0A # s) = l # split_lines s"
  by (induction l) auto

lemma split_join:
  "ls \<noteq> [] \<Longrightarrow> \<forall>l \<in> set ls. CHR 0x0A \<notin> set l \<Longrightarrow> split_lines (join_lines ls) = ls"
proof (induction ls rule: join_lines.induct)
  case 1
  then show ?case by simp
next
  case (2 l)
  then show ?case by (simp add: split_lines_line)
next
  case (3 l v va)
  then show ?case by (simp add: split_lines_append)
qed

lemma set_pad: "set (pad w n) \<subseteq> set ''0123456789''"
  using set_show_digits[of "Suc (nat n)" "nat n"] by (auto simp: pad_def show_nat_def)

lemma set_replace_first: "set (replace_first a b s) \<subseteq> insert b (set s)"
  by (induction s) auto

lemma set_toISOString: "set (toISOString t) \<subseteq> set ''0123456789-+:.TZ''"
proof -
  have p: "c \<in> set (pad w n) \<Longrightarrow> c \<in> set ''0123456789''" for c w n
    using set_pad[of w n] by blast
  show ?thesis
    unfolding toISOString_def Let_def
    by (auto dest!: p)
qed

lemma formattedDate_no_newline: "CHR 0x0A \<notin> set (formattedDate now)"
proof
  assume "CHR 0x0A \<in> set (formattedDate now)"
  then have "CHR 0x0A \<in> set (replace_first (CHR ''T'') (CHR '' '') (toISOString now))"
    unfolding formattedDate_def by (rule in_set_takeD)
  then have "CHR 0x0A \<in> insert (CHR '' '') (set (toISOString now))"
    using set_replace_first by blast
  then show False
    using set_toISOString[of now] by auto
qed

lemma trailer_no_newline: "l \<in> set (trailer now n) \<Longrightarrow> CHR 0x0A \<notin> set l"
  using formattedDate_no_newline[of now] set_show_int[of n]
  by (auto simp: trailer_def)

lemma kept_from_set: "set (kept_from parse c k lines) \<subseteq> set lines"
proof
  fix x
  assume "x \<in> set (kept_from parse c k lines)"
  with kept_from_subseq[of parse c k lines] show "x \<in> set lines"
    by (auto elim: list_emb_set)
qed

lemma trimmed_lines_no_newline:
  assumes "l \<in> set (trimmed_lines parse z now n (split_lines logData))"
  shows "CHR 0x0A \<notin> set l"
proof -
  from assms have "l \<in> set (kept_from parse (cutoffTimestamp z now n) False (split_lines logData))
                   \<or> l \<in> set (trailer now n)"
    by (simp add: trimmed_lines_def scan_output)
  then show ?thesis
  proof
    assume "l \<in> set (kept_from parse (cutoffTimestamp z now n) False (split_lines logData))"
    then have "l \<in> set (split_lines logData)" using kept_from_set by blast
    then show ?thesis by (rule split_lines_no_newline)
  next
    assume "l \<in> set (trailer now n)"
    then show ?thesis by (rule trailer_no_newline)
  qed
qed

lemma split_trimmed_content:
  "split_lines (trimmed_content parse z now n logData)
   = trimmed_lines parse z now n (split_lines logData)"
  unfolding trimmed_content_def
proof (rule split_join)
  show "trimmed_lines parse z now n (split_lines logData) \<noteq> []"
    by (simp add: trimmed_lines_def trailer_def)
  show "\<forall>l \<in> set (trimmed_lines parse z now n (split_lines logData)). CHR 0x0A \<notin> set l"
    using trimmed_lines_no_newline by blast
qed

lemma trimHeartbeatLog_files:
  assumes "fs (heartbeat_log config) = Some logData"
  shows "trimHeartbeatLog parse z now config fs =
           (fs(heartbeat_log config @ ''.tmp'' := None))
             (heartbeat_log config \<mapsto>
                trimmed_content parse z now (log_days_to_keep config) logData)"
proof -
  have "length (heartbeat_log config @ ''.tmp'') \<noteq> length (heartbeat_log config)" by simp
  then have ne: "heartbeat_log config @ ''.tmp'' \<noteq> heartbeat_log config" by fastforce
  show ?thesis
    using assms ne
    by (simp add: trimHeartbeatLog_def Let_def writeFileSync_def renameSync_def)
qed

lemma kept_again:
  assumes "\<forall>l \<in> set lines. header_kept parse c1 l \<longrightarrow> header_kept parse c2 l"
      and "k \<longrightarrow> k2"
  shows "kept_from parse c2 k2 (kept_from parse c1 k lines) = kept_from parse c1 k lines"
  using assms
proof (induction lines arbitrary: k k2)
  case Nil
  show ?case by (simp add: kept_from_Nil)
next
  case (Cons l ls)
  have ih: "kept_from parse c2 b2 (kept_from parse c1 b ls) = kept_from parse c1 b ls"
    if "b \<longrightarrow> b2" for b b2
    using Cons.IH[of b b2] Cons.prems(1) that by simp
  show ?case
  proof (cases "is_header l")
    case True
    show ?thesis
    proof (cases "header_kept parse c1 l")
      case k1: True
      then have "header_kept parse c2 l" using Cons.prems(1) by simp
      then show ?thesis using True k1 ih[of True True] by (simp add: kept_from_Cons)
    next
      case False
      then show ?thesis using True ih[of False k2] by (simp add: kept_from_Cons)
    qed
  next
    case False
    show ?thesis
    proof (cases k)
      case True
      then have "k2" using Cons.prems(2) by simp
      then show ?thesis using True False ih[of True True] by (simp add: kept_from_Cons)
    next
      case kf: False
      then show ?thesis using False ih[of False k2] by (simp add: kept_from_Cons)
    qed
  qed
qed

subsection \<open>The trailer\<close>

text \<open>
  Claim C8. Whatever the log file holds (nothing at all, or only entries that are
  pruned), the file after the run consists of the kept lines followed by exactly two
  more lines: one that says that maintenance was successful, with the current time to
  the second, and one with the number of retention days. The first carries the current
  time (for years 1970 to 9999 the reference reading of its stamp is \<open>now\<close> cut to the
  second) and the second the number of days (its digits read back give
  \<^verbatim>\<open>daysToKeep\<close>). The number of days is a safe integer, the range in which the template
  literal of line 84 prints all the decimal digits, as \<open>show_int\<close> does.
\<close>

theorem trailer_always_appended:
  assumes "fs (heartbeat_log config) = Some logData"
      and "safe_integer (log_days_to_keep config)"
  shows "(\<exists>written.
            trimHeartbeatLog parse LocalTZA now config fs (heartbeat_log config) = Some written
            \<and> split_lines written =
                output_lines (scan parse (cutoffTimestamp LocalTZA now (log_days_to_keep config))
                                (split_lines logData))
                @ [''Heartbeat log maintenance successful at '' @ formattedDate now @ '' UTC'',
                   ''Removed entries older than '' @ show_int (log_days_to_keep config) @ '' days''])
       \<and> (0 \<le> now \<and> now < 253402300800000 \<longrightarrow>
            utc_parse (formattedDate now @ '' UTC'') = Some (now - now mod 1000))
       \<and> (0 \<le> log_days_to_keep config \<longrightarrow>
            num_of (show_int (log_days_to_keep config)) = log_days_to_keep config)"
proof (intro conjI impI)
  show "\<exists>written.
            trimHeartbeatLog parse LocalTZA now config fs (heartbeat_log config) = Some written
            \<and> split_lines written =
                output_lines (scan parse (cutoffTimestamp LocalTZA now (log_days_to_keep config))
                                (split_lines logData))
                @ [''Heartbeat log maintenance successful at '' @ formattedDate now @ '' UTC'',
                   ''Removed entries older than '' @ show_int (log_days_to_keep config) @ '' days'']"
    using trimHeartbeatLog_files[where fs = fs and config = config and logData = logData
            and parse = parse and z = LocalTZA and now = now, OF assms(1)]
    by (simp add: split_trimmed_content trimmed_lines_def trailer_def)
next
  assume "0 \<le> now \<and> now < 253402300800000"
  then show "utc_parse (formattedDate now @ '' UTC'') = Some (now - now mod 1000)"
    by (simp add: utc_parse_formattedDate)
next
  assume "0 \<le> log_days_to_keep config"
  then show "num_of (show_int (log_days_to_keep config)) = log_days_to_keep config"
    by (rule num_of_show_int)
qed

text \<open>
  The instances: on 2024-06-01 with 30 days of retention, the log with one entry of
  2024-01-01 and its detail line, and the empty log, both end up as the two trailer lines
  alone.
\<close>

theorem trailer_always_appended_witness:
  "(\<exists>written.
      trimHeartbeatLog utc_parse zone_UTC 1717200000000 keep_30_days expired_log
        (heartbeat_log keep_30_days) = Some written
      \<and> split_lines written =
          [''Heartbeat log maintenance successful at 2024-06-01 00:00:00 UTC'',
           ''Removed entries older than 30 days''])
   \<and> (\<exists>written.
      trimHeartbeatLog utc_parse zone_UTC 1717200000000 keep_30_days empty_log
        (heartbeat_log keep_30_days) = Some written
      \<and> split_lines written =
          [''Heartbeat log maintenance successful at 2024-06-01 00:00:00 UTC'',
           ''Removed entries older than 30 days''])
   \<and> utc_parse (formattedDate 1717200000000 @ '' UTC'') = Some (1717200000000 - 1717200000000 mod 1000)
   \<and> num_of (show_int (log_days_to_keep keep_30_days)) = log_days_to_keep keep_30_days"
proof (intro conjI)
  let ?x = "''Heartbeat update successful at 2024-01-01 00:00:00 UTC'' @ [CHR 0x0A] @ ''  detail line''"
  have h1: "expired_log (heartbeat_log keep_30_days) = Some ?x"
    by (simp add: expired_log_def keep_30_days_def)
  have h2: "empty_log (heartbeat_log keep_30_days) = Some []"
    by (simp add: empty_log_def keep_30_days_def)
  have h3: "safe_integer (log_days_to_keep keep_30_days)"
    by (simp add: safe_integer_def keep_30_days_def)
  have f: "formattedDate 1717200000000 = ''2024-06-01 00:00:00''" by code_simp
  have n: "show_int (log_days_to_keep keep_30_days) = ''30''" by code_simp
  have s1: "output_lines (scan utc_parse
              (cutoffTimestamp zone_UTC 1717200000000 (log_days_to_keep keep_30_days))
              (split_lines ?x)) = []"
    by code_simp
  have s2: "output_lines (scan utc_parse
              (cutoffTimestamp zone_UTC 1717200000000 (log_days_to_keep keep_30_days))
              (split_lines [])) = []"
    by code_simp
  note w1 = trailer_always_appended[where fs = expired_log and config = keep_30_days
              and logData = ?x and parse = utc_parse and LocalTZA = zone_UTC
              and now = 1717200000000, OF h1 h3]
  note w2 = trailer_always_appended[where fs = empty_log and config = keep_30_days
              and logData = "[]" and parse = utc_parse and LocalTZA = zone_UTC
              and now = 1717200000000, OF h2 h3]
  show "\<exists>written.
      trimHeartbeatLog utc_parse zone_UTC 1717200000000 keep_30_days expired_log
        (heartbeat_log keep_30_days) = Some written
      \<and> split_lines written =
          [''Heartbeat log maintenance successful at 2024-06-01 00:00:00 UTC'',
           ''Removed entries older than 30 days'']"
    using w1[THEN conjunct1] unfolding s1 f n by simp
  show "\<exists>written.
      trimHeartbeatLog utc_parse zone_UTC 1717200000000 keep_30_days empty_log
        (heartbeat_log keep_30_days) = Some written
      \<and> split_lines written =
          [''Heartbeat log maintenance successful at 2024-06-01 00:00:00 UTC'',
           ''Removed entries older than 30 days'']"
    using w2[THEN conjunct1] unfolding s2 f n by simp
  have r: "(0::int) \<le> 1717200000000 \<and> (1717200000000::int) < 253402300800000" by simp
  show "utc_parse (formattedDate 1717200000000 @ '' UTC'') = Some (1717200000000 - 1717200000000 mod 1000)"
    using w1[THEN conjunct2, THEN conjunct1, THEN mp, OF r] .
  have d: "0 \<le> log_days_to_keep keep_30_days" by (simp add: keep_30_days_def)
  show "num_of (show_int (log_days_to_keep keep_30_days)) = log_days_to_keep keep_30_days"
    using w1[THEN conjunct2, THEN conjunct2, THEN mp, OF d] .
qed

subsection \<open>Running the filter twice\<close>

lemma join_lines_append:
  "xs \<noteq> [] \<Longrightarrow> ys \<noteq> [] \<Longrightarrow> join_lines (xs @ ys) = join_lines xs @ CHR 0x0A # join_lines ys"
proof (induction xs rule: join_lines.induct)
  case 1
  then show ?case by simp
next
  case (2 l)
  then show ?case by (cases ys) simp_all
next
  case (3 l v va)
  then show ?case by simp
qed

lemma second_scan:
  assumes "header_kept parse c2 (hd (trailer now1 n))"
      and "\<forall>l \<in> set lines. header_kept parse c1 l \<longrightarrow> header_kept parse c2 l"
  shows "kept_from parse c2 False (kept_from parse c1 False lines @ trailer now1 n)
         = kept_from parse c1 False lines @ trailer now1 n"
proof -
  define K where "K = kept_from parse c1 False lines"
  define t1 where "t1 = ''Heartbeat log maintenance successful at '' @ formattedDate now1 @ '' UTC''"
  define t2 where "t2 = ''Removed entries older than '' @ show_int n @ '' days''"
  have t: "trailer now1 n = [t1, t2]" by (simp add: trailer_def t1_def t2_def)
  have k1: "header_kept parse c2 t1" using assms(1) unfolding t by simp
  then have h1: "is_header t1"
    by (auto simp: header_kept_def is_header_def split: option.splits)
  have h2: "\<not> is_header t2"
    unfolding t2_def by (simp only: is_header_def header_match_trailer2 not_not)
  have a: "kept_from parse c2 False K = K"
    unfolding K_def using kept_again[OF assms(2), of False False] by simp
  have b: "kept_from parse c2 k [t1, t2] = [t1, t2]" for k
    using k1 h1 h2 by (simp add: kept_from_Cons kept_from_Nil)
  show ?thesis
    unfolding t K_def[symmetric] by (simp only: kept_from_append a b)
qed

lemma first_trailer_still_kept:
  assumes "0 \<le> now1" "now1 < 253402300800000"
      and "now1 \<le> now2" "now2 \<le> now1 + 86399000"
      and "1 \<le> n" "n \<le> 100000000"
  shows "header_kept utc_parse (cutoffTimestamp zone_UTC now2 n) (hd (trailer now1 n))"
proof -
  have m: "0 \<le> now1 mod 1000" "now1 mod 1000 < 1000" by simp_all
  have nm: "86400000 \<le> n * 86400000" "n * 86400000 \<le> 8640000000000000"
    using assms(5,6) by simp_all
  have c: "cutoffTimestamp zone_UTC now2 n = Some (now2 - n * 86400000)"
    using assms nm
    by (simp add: cutoffTimestamp_eq UTC_def LocalTime_def zone_UTC_def msPerDay_def TimeClip_def)
  have h: "header_match (''Heartbeat log maintenance successful at '' @ formattedDate now1 @ '' UTC'')
           = Some (formattedDate now1)"
    using header_match_trailer1[OF assms(1,2)] formattedDate_stamp[OF assms(1,2)] by simp
  have p: "utc_parse (formattedDate now1 @ '' UTC'') = Some (now1 - now1 mod 1000)"
    using assms(1,2) by (rule utc_parse_formattedDate)
  have le: "now2 - n * 86400000 \<le> now1 - now1 mod 1000"
    using assms(4) nm(1) m by linarith
  show ?thesis
    unfolding c trailer_def list.sel header_kept_def h option.case p js_ge.simps
    by (rule le)
qed

text \<open>
  Claim C4, as amended. If the first run's trailer header is still inside the window of
  the second run, and so is every header line of the log that the first run kept, then
  the second run leaves every line of the first run's output in place, trailer pair
  included, and adds exactly one new trailer pair: the new content is the old content, a
  line break and the two new lines. (Lemma \<open>first_trailer_still_kept\<close> shows the first
  condition for a host on UTC, 1 to 100 million days of retention and a second run less
  than a day after the first; the second condition holds whenever both runs have the
  same cutoff.)
\<close>

theorem second_run_keeps_first_output:
  assumes "fs (heartbeat_log config) = Some logData"
      and "header_kept parse (cutoffTimestamp LocalTZA now2 (log_days_to_keep config))
             (hd (trailer now1 (log_days_to_keep config)))"
      and "\<forall>l \<in> set (split_lines logData).
             header_kept parse (cutoffTimestamp LocalTZA now1 (log_days_to_keep config)) l \<longrightarrow>
             header_kept parse (cutoffTimestamp LocalTZA now2 (log_days_to_keep config)) l"
  shows "\<exists>first second.
           trimHeartbeatLog parse LocalTZA now1 config fs (heartbeat_log config) = Some first
         \<and> trimHeartbeatLog parse LocalTZA now2 config
              (trimHeartbeatLog parse LocalTZA now1 config fs) (heartbeat_log config) = Some second
         \<and> split_lines second = split_lines first @ trailer now2 (log_days_to_keep config)
         \<and> second = first @ CHR 0x0A # join_lines (trailer now2 (log_days_to_keep config))"
proof -
  let ?n = "log_days_to_keep config"
  let ?p = "heartbeat_log config"
  let ?first = "trimmed_content parse LocalTZA now1 ?n logData"
  let ?fs1 = "trimHeartbeatLog parse LocalTZA now1 config fs"
  let ?second = "trimmed_content parse LocalTZA now2 ?n ?first"
  have 1: "?fs1 ?p = Some ?first"
    using trimHeartbeatLog_files[where fs = fs and config = config and logData = logData
            and parse = parse and z = LocalTZA and now = now1, OF assms(1)] by simp
  have 2: "trimHeartbeatLog parse LocalTZA now2 config ?fs1 ?p = Some ?second"
    using trimHeartbeatLog_files[where fs = ?fs1 and config = config and logData = ?first
            and parse = parse and z = LocalTZA and now = now2, OF 1] by simp
  have l1: "split_lines ?first
            = kept_from parse (cutoffTimestamp LocalTZA now1 ?n) False (split_lines logData)
              @ trailer now1 ?n"
    by (simp add: split_trimmed_content trimmed_lines_def scan_output)
  have l2: "split_lines ?second = split_lines ?first @ trailer now2 ?n"
    unfolding split_trimmed_content[of parse LocalTZA now2 ?n ?first]
    unfolding trimmed_lines_def scan_output l1
    using second_scan[OF assms(2,3)] by simp
  have ne: "split_lines ?first \<noteq> []" "trailer now2 ?n \<noteq> []"
    by (simp_all add: split_lines_not_Nil trailer_def)
  have f: "join_lines (split_lines ?first) = ?first"
    unfolding l1 by (simp add: trimmed_content_def trimmed_lines_def scan_output)
  have tl2: "trimmed_lines parse LocalTZA now2 ?n (split_lines ?first)
             = split_lines ?first @ trailer now2 ?n"
    using l2 by (simp only: split_trimmed_content)
  have "?second = join_lines (split_lines ?first @ trailer now2 ?n)"
    by (simp only: trimmed_content_def[of parse LocalTZA now2 ?n ?first] tl2)
  then have c: "?second = ?first @ CHR 0x0A # join_lines (trailer now2 ?n)"
    using join_lines_append[OF ne] f by simp
  show ?thesis
    using 1 2 l2 c by blast
qed

text \<open>
  The instance: 30 days of retention, a log with one entry two hours old, two runs 250 ms
  apart.
\<close>

theorem second_run_keeps_first_output_witness:
  "\<exists>first second.
     trimHeartbeatLog utc_parse zone_UTC 1717200000500 keep_30_days recent_log
       (heartbeat_log keep_30_days) = Some first
     \<and> trimHeartbeatLog utc_parse zone_UTC 1717200000750 keep_30_days
          (trimHeartbeatLog utc_parse zone_UTC 1717200000500 keep_30_days recent_log)
          (heartbeat_log keep_30_days) = Some second
     \<and> split_lines second =
         split_lines first @ trailer 1717200000750 (log_days_to_keep keep_30_days)
     \<and> second = first @ CHR 0x0A # join_lines (trailer 1717200000750 (log_days_to_keep keep_30_days))"
proof -
  let ?x = "''Heartbeat update successful at 2024-05-31 22:00:00 UTC'' @ [CHR 0x0A] @ ''  detail line''"
  have h1: "recent_log (heartbeat_log keep_30_days) = Some ?x"
    by (simp add: recent_log_def keep_30_days_def)
  have h2: "header_kept utc_parse
              (cutoffTimestamp zone_UTC 1717200000750 (log_days_to_keep keep_30_days))
              (hd (trailer 1717200000500 (log_days_to_keep keep_30_days)))"
    by code_simp
  have h3: "\<forall>l \<in> set (split_lines ?x).
              header_kept utc_parse
                (cutoffTimestamp zone_UTC 1717200000500 (log_days_to_keep keep_30_days)) l \<longrightarrow>
              header_kept utc_parse
                (cutoffTimestamp zone_UTC 1717200000750 (log_days_to_keep keep_30_days)) l"
    by code_simp
  show ?thesis
    using second_run_keeps_first_output[where fs = recent_log and config = keep_30_days
            and logData = ?x and parse = utc_parse and LocalTZA = zone_UTC
            and ?now1.0 = 1717200000500 and ?now2.0 = 1717200000750, OF h1 h2 h3] .
qed

text \<open>
  Claim C4 as it is worded, for every \<open>retentionDays \<ge> 0\<close>, fails for 0 days: the first
  run, at 2024-06-01 00:00:00.500, stamps its trailer 00:00:00; for the second run, 250
  ms later, that stamp is before the cutoff (which is the time of the run itself), so the
  first trailer header is dropped, and its second line with it. The second run's output
  is one trailer pair, not the first run's output plus one.
\<close>

theorem second_run_drops_first_trailer:
  "trimHeartbeatLog utc_parse zone_UTC 1717200000500 keep_0_days recent_log log_path
     = Some (''Heartbeat log maintenance successful at 2024-06-01 00:00:00 UTC'' @ [CHR 0x0A]
             @ ''Removed entries older than 0 days'')
   \<and> trimHeartbeatLog utc_parse zone_UTC 1717200000750 keep_0_days
       (trimHeartbeatLog utc_parse zone_UTC 1717200000500 keep_0_days recent_log) log_path
     = Some (''Heartbeat log maintenance successful at 2024-06-01 00:00:00 UTC'' @ [CHR 0x0A]
             @ ''Removed entries older than 0 days'')"
  by code_simp

section \<open>Properties of the heartbeat reporter\<close>

subsection \<open>The error log scanner\<close>

lemma set_insert_by: "set (insert_by cmp x ys) = insert x (set ys)"
  by (induction ys) auto

lemma set_sort_by: "set (sort_by cmp xs) = set xs"
  by (induction xs) (simp_all add: sort_by_def set_insert_by)

lemma check_failed_fields:
  "has_error (check_failed e) = False" "log_content (check_failed e) = None"
  "latest_log (check_failed e) = None"
  by (simp_all add: check_failed_def)

lemma no_error_no_content: "\<not> has_error (checkErrorLog env) \<Longrightarrow> log_content (checkErrorLog env) = None"
  by (auto simp: checkErrorLog_def check_failed_def check_result_def
           split: sum.splits list.splits if_splits)

text \<open>
  Claim C5. With no file matching the pattern the scanner returns \<open>has_error = False\<close>,
  \<open>latest_log = None\<close>, \<open>log_content = None\<close>. With the selected file (the head of the
  sorted matches) of size 0 it returns \<open>has_error = False\<close>, \<open>latest_log\<close> that file,
  \<open>log_content = None\<close>. With the selected file holding the non-empty \<open>bytes\<close> it returns
  \<open>has_error = True\<close> and as \<open>log_content\<close> the first 500 bytes, decoded, followed by
  \<^verbatim>\<open>...\<close> exactly when there are more than 500. The three cases are stated for reads
  that succeed (a read that throws ends in the \<^verbatim>\<open>catch\<close> branch). In every case, also
  when a read throws, \<open>has_error = False\<close> implies \<open>log_content = None\<close>.
\<close>

theorem checkErrorLog_classification:
  "(readdir env = Inr files \<and> errorLogFiles env files = [] \<longrightarrow>
      has_error (checkErrorLog env) = False
      \<and> latest_log (checkErrorLog env) = None
      \<and> log_content (checkErrorLog env) = None)
   \<and> (readdir env = Inr files
      \<and> sort_by (compare_dates env) (errorLogFiles env files) = latestLogFile # others
      \<and> stat_size env latestLogFile = Inr 0 \<longrightarrow>
      has_error (checkErrorLog env) = False
      \<and> latest_log (checkErrorLog env) = Some latestLogFile
      \<and> log_content (checkErrorLog env) = None)
   \<and> (readdir env = Inr files
      \<and> sort_by (compare_dates env) (errorLogFiles env files) = latestLogFile # others
      \<and> bytes \<noteq> []
      \<and> stat_size env latestLogFile = Inr (length bytes)
      \<and> read_head env latestLogFile (min 500 (length bytes)) = Inr (take 500 bytes) \<longrightarrow>
      has_error (checkErrorLog env) = True
      \<and> latest_log (checkErrorLog env) = Some latestLogFile
      \<and> log_content (checkErrorLog env)
          = Some (utf8 env (take 500 bytes) @ (if 500 < length bytes then ''...'' else [])))
   \<and> (has_error (checkErrorLog env) = False \<longrightarrow> log_content (checkErrorLog env) = None)"
proof (intro conjI impI)
  assume "readdir env = Inr files \<and> errorLogFiles env files = []"
  then show "has_error (checkErrorLog env) = False" "latest_log (checkErrorLog env) = None"
       "log_content (checkErrorLog env) = None"
    by (simp_all add: checkErrorLog_def)
next
  assume a: "readdir env = Inr files
      \<and> sort_by (compare_dates env) (errorLogFiles env files) = latestLogFile # others
      \<and> stat_size env latestLogFile = Inr 0"
  then have "set (errorLogFiles env files) \<noteq> {}"
    using set_sort_by[of "compare_dates env" "errorLogFiles env files"] by auto
  then have ne: "errorLogFiles env files \<noteq> []" by auto
  show "has_error (checkErrorLog env) = False" "latest_log (checkErrorLog env) = Some latestLogFile"
       "log_content (checkErrorLog env) = None"
    using a ne by (simp_all add: checkErrorLog_def check_result_def)
next
  assume a: "readdir env = Inr files
      \<and> sort_by (compare_dates env) (errorLogFiles env files) = latestLogFile # others
      \<and> bytes \<noteq> []
      \<and> stat_size env latestLogFile = Inr (length bytes)
      \<and> read_head env latestLogFile (min 500 (length bytes)) = Inr (take 500 bytes)"
  then have "set (errorLogFiles env files) \<noteq> {}"
    using set_sort_by[of "compare_dates env" "errorLogFiles env files"] by auto
  then have ne: "errorLogFiles env files \<noteq> []" by auto
  show "has_error (checkErrorLog env) = True" "latest_log (checkErrorLog env) = Some latestLogFile"
       "log_content (checkErrorLog env)
          = Some (utf8 env (take 500 bytes) @ (if 500 < length bytes then ''...'' else []))"
    using a ne by (simp_all add: checkErrorLog_def check_result_def)
next
  assume "has_error (checkErrorLog env) = False"
  then show "log_content (checkErrorLog env) = None"
    by (simp add: no_error_no_content)
qed

text \<open>
  The instances: a directory with no match; one whose newest log is empty (older,
  non-empty logs do not count); one with a short log; one with a log of 600 bytes.
\<close>

theorem checkErrorLog_classification_witness:
  "(has_error (checkErrorLog (dir_env (take 1 (drop 1 demo_dir)))) = False
    \<and> latest_log (checkErrorLog (dir_env (take 1 (drop 1 demo_dir)))) = None
    \<and> log_content (checkErrorLog (dir_env (take 1 (drop 1 demo_dir)))) = None)
   \<and> (has_error (checkErrorLog (dir_env demo_dir)) = False
    \<and> latest_log (checkErrorLog (dir_env demo_dir)) = Some ''my_script_2024-06-01_error.log''
    \<and> log_content (checkErrorLog (dir_env demo_dir)) = None)
   \<and> (has_error (checkErrorLog (dir_env (take 2 demo_dir))) = True
    \<and> latest_log (checkErrorLog (dir_env (take 2 demo_dir))) = Some ''my_script_2024-05-30_error.log''
    \<and> log_content (checkErrorLog (dir_env (take 2 demo_dir))) = Some ''old failure'')
   \<and> (has_error (checkErrorLog (dir_env (drop 3 demo_dir))) = True
    \<and> latest_log (checkErrorLog (dir_env (drop 3 demo_dir))) = Some ''my_script_2024-05-31_error.log''
    \<and> log_content (checkErrorLog (dir_env (drop 3 demo_dir)))
        = Some (replicate 500 (CHR ''x'') @ ''...''))"
proof (intro conjI)
  let ?e1 = "dir_env (take 1 (drop 1 demo_dir))"
  have h1: "readdir ?e1 = Inr [''notes.txt''] \<and> errorLogFiles ?e1 [''notes.txt''] = []"
    by code_simp
  from checkErrorLog_classification[where env = ?e1 and files = "[''notes.txt'']",
         THEN conjunct1, THEN mp, OF h1]
  show "has_error (checkErrorLog ?e1) = False" "latest_log (checkErrorLog ?e1) = None"
       "log_content (checkErrorLog ?e1) = None"
    by simp_all
next
  let ?e2 = "dir_env demo_dir"
  have h2: "readdir ?e2 = Inr (map fst demo_dir)
      \<and> sort_by (compare_dates ?e2) (errorLogFiles ?e2 (map fst demo_dir))
          = ''my_script_2024-06-01_error.log''
            # [''my_script_2024-05-31_error.log'', ''my_script_2024-05-30_error.log'']
      \<and> stat_size ?e2 ''my_script_2024-06-01_error.log'' = Inr 0"
    by code_simp
  from checkErrorLog_classification[where env = ?e2 and files = "map fst demo_dir",
         THEN conjunct2, THEN conjunct1, THEN mp, OF h2]
  show "has_error (checkErrorLog ?e2) = False"
       "latest_log (checkErrorLog ?e2) = Some ''my_script_2024-06-01_error.log''"
       "log_content (checkErrorLog ?e2) = None"
    by simp_all
next
  let ?e3 = "dir_env (take 2 demo_dir)"
  have h3: "readdir ?e3 = Inr [''my_script_2024-05-30_error.log'', ''notes.txt'']
      \<and> sort_by (compare_dates ?e3)
            (errorLogFiles ?e3 [''my_script_2024-05-30_error.log'', ''notes.txt''])
          = ''my_script_2024-05-30_error.log'' # []
      \<and> ''old failure'' \<noteq> []
      \<and> stat_size ?e3 ''my_script_2024-05-30_error.log'' = Inr (length ''old failure'')
      \<and> read_head ?e3 ''my_script_2024-05-30_error.log'' (min 500 (length ''old failure''))
          = Inr (take 500 ''old failure'')"
    by code_simp
  have u: "utf8 ?e3 = (\<lambda>bytes. bytes)" by (simp add: dir_env_def)
  from checkErrorLog_classification[where env = ?e3
         and files = "[''my_script_2024-05-30_error.log'', ''notes.txt'']",
         THEN conjunct2, THEN conjunct2, THEN conjunct1, THEN mp, OF h3]
  show "has_error (checkErrorLog ?e3) = True"
       "latest_log (checkErrorLog ?e3) = Some ''my_script_2024-05-30_error.log''"
       "log_content (checkErrorLog ?e3) = Some ''old failure''"
    by (simp_all add: u)
next
  let ?e4 = "dir_env (drop 3 demo_dir)"
  let ?b = "replicate 600 (CHR ''x'')"
  have h4: "readdir ?e4 = Inr [''my_script_2024-05-31_error.log'']
      \<and> sort_by (compare_dates ?e4) (errorLogFiles ?e4 [''my_script_2024-05-31_error.log''])
          = ''my_script_2024-05-31_error.log'' # []
      \<and> ?b \<noteq> []
      \<and> stat_size ?e4 ''my_script_2024-05-31_error.log'' = Inr (length ?b)
      \<and> read_head ?e4 ''my_script_2024-05-31_error.log'' (min 500 (length ?b))
          = Inr (take 500 ?b)"
    by code_simp
  have u: "utf8 ?e4 = (\<lambda>bytes. bytes)" by (simp add: dir_env_def)
  from checkErrorLog_classification[where env = ?e4
         and files = "[''my_script_2024-05-31_error.log'']",
         THEN conjunct2, THEN conjunct2, THEN conjunct1, THEN mp, OF h4]
  show "has_error (checkErrorLog ?e4) = True"
       "latest_log (checkErrorLog ?e4) = Some ''my_script_2024-05-31_error.log''"
       "log_content (checkErrorLog ?e4) = Some (replicate 500 (CHR ''x'') @ ''...'')"
    by (simp_all add: u)
qed

subsection \<open>The upsert\<close>

lemma updateGithubFile_eq:
  "updateGithubFile r encoded =
     (case http_put r (updateData (fetched_sha (http_get r)) encoded) of
        Inl error \<Rightarrow> False
      | Inr updateResponse \<Rightarrow>
          statusCode updateResponse = 200 \<or> statusCode updateResponse = 201)"
  by (simp add: updateGithubFile_def updateGithubFile_try_def Let_def split: sum.splits)

text \<open>
  Claim C6. When the fetch fails (throws) or answers with a status other than 200, such
  as 404, the write request carries no version token and the commit message of a
  create, and the result of the upsert is the verdict on that write alone: the failed
  fetch is no error of the upsert. When the fetch answers 200 with the version token
  \<open>X\<close>, the write request carries \<open>sha = X\<close>. A version token is a non-empty string
  (the store's tokens are 40 hexadecimal digits; \<^verbatim>\<open>if (sha)\<close> takes the empty string,
  like \<^verbatim>\<open>null\<close>, for no token).
\<close>

theorem upsert_version_token:
  "((\<exists>error. http_get r = Inl error)
      \<or> (\<exists>response. http_get r = Inr response \<and> statusCode response \<noteq> 200) \<longrightarrow>
        updateData (fetched_sha (http_get r)) encoded = create_request encoded
        \<and> updateGithubFile r encoded = put_succeeds r (create_request encoded))
   \<and> (http_get r = Inr \<lparr>statusCode = 200, data_sha = Some X\<rparr> \<and> X \<noteq> [] \<longrightarrow>
        updateData (fetched_sha (http_get r)) encoded = update_request X encoded
        \<and> updateGithubFile r encoded = put_succeeds r (update_request X encoded))"
  by (auto simp: updateGithubFile_eq put_succeeds_def fetched_sha_def updateData_def
                 create_request_def update_request_def split: if_splits)

theorem upsert_version_token_witness:
  "(updateData (fetched_sha (http_get first_run)) ''e30='' = create_request ''e30=''
    \<and> updateGithubFile first_run ''e30='' = True)
   \<and> (updateData (fetched_sha (http_get later_run)) ''e30='' = update_request ''3f2a9c'' ''e30=''
    \<and> updateGithubFile later_run ''e30='' = True)"
proof (intro conjI)
  have h1: "(\<exists>error. http_get first_run = Inl error)
      \<or> (\<exists>response. http_get first_run = Inr response \<and> statusCode response \<noteq> 200)"
    by (simp add: first_run_def)
  have p1: "put_succeeds first_run (create_request ''e30='') = True"
    by (simp add: put_succeeds_def first_run_def create_request_def accepts_create_def)
  from upsert_version_token[where r = first_run and encoded = "''e30=''",
         THEN conjunct1, THEN mp, OF h1]
  show "updateData (fetched_sha (http_get first_run)) ''e30='' = create_request ''e30=''"
       "updateGithubFile first_run ''e30='' = True"
    by (simp_all add: p1)
next
  have h2: "http_get later_run = Inr \<lparr>statusCode = 200, data_sha = Some ''3f2a9c''\<rparr>
            \<and> ''3f2a9c'' \<noteq> []"
    by (simp add: later_run_def)
  have p2: "put_succeeds later_run (update_request ''3f2a9c'' ''e30='') = True"
    by (simp add: put_succeeds_def later_run_def update_request_def accepts_update_def)
  from upsert_version_token[where r = later_run and encoded = "''e30=''" and X = "''3f2a9c''",
         THEN conjunct2, THEN mp, OF h2]
  show "updateData (fetched_sha (http_get later_run)) ''e30='' = update_request ''3f2a9c'' ''e30=''"
       "updateGithubFile later_run ''e30='' = True"
    by (simp_all add: p2)
qed

subsection \<open>The retry loop\<close>

lemma retry_loop_3:
  "retry_loop remote_at encoded 3 1 =
     (if updateGithubFile (remote_at 1) encoded then (True, [Attempt 1])
      else if updateGithubFile (remote_at 2) encoded
      then (True, [Attempt 1, Backoff 2000, Attempt 2])
      else if updateGithubFile (remote_at 3) encoded
      then (True, [Attempt 1, Backoff 2000, Attempt 2, Backoff 4000, Attempt 3])
      else (False, [Attempt 1, Backoff 2000, Attempt 2, Backoff 4000, Attempt 3, Backoff 6000]))"
proof -
  have 4: "retry_loop remote_at encoded 3 4 = (False, [])"
    using retry_loop.simps[of remote_at encoded 3 4] by (simp del: retry_loop.simps)
  have 3: "retry_loop remote_at encoded 3 3 =
     (if updateGithubFile (remote_at 3) encoded then (True, [Attempt 3])
      else (False, [Attempt 3, Backoff 6000]))"
    using retry_loop.simps[of remote_at encoded 3 3] by (simp add: 4 del: retry_loop.simps)
  have 2: "retry_loop remote_at encoded 3 2 =
     (if updateGithubFile (remote_at 2) encoded then (True, [Attempt 2])
      else if updateGithubFile (remote_at 3) encoded then (True, [Attempt 2, Backoff 4000, Attempt 3])
      else (False, [Attempt 2, Backoff 4000, Attempt 3, Backoff 6000]))"
    using retry_loop.simps[of remote_at encoded 3 2] by (simp add: 3 del: retry_loop.simps)
  show ?thesis
    using retry_loop.simps[of remote_at encoded 3 1]
    by (simp add: 2 del: retry_loop.simps One_nat_def)
qed

lemma main_never_rejects: "\<exists>result. main info remote_at = Inr result"
  by (simp add: main_def split: sum.splits)

text \<open>
  The loop: at most three attempts in all, the first and up to two more (the source's
  \<^verbatim>\<open>attempts = 3\<close>; its comment says "Retry up to 2 times"), each a whole
  fetch-then-write sequence, stopping at the first that succeeds. After the failed attempt
  \<open>i\<close> the loop waits \<open>i * 2000\<close> ms, so 2 s lie between attempts 1 and 2 and 4 s between
  attempts 2 and 3; a third failure is followed by a wait of 6 s and no further attempt.
\<close>

lemma retry_policy:
  "\<exists>result. main (Inr systemInfo) remote_at = Inr result
     \<and> (succeeded result, events result) =
        (if updateGithubFile (remote_at 1) (encoded_record systemInfo)
         then (True, [Attempt 1])
         else if updateGithubFile (remote_at 2) (encoded_record systemInfo)
         then (True, [Attempt 1, Backoff (1 * 2000), Attempt 2])
         else if updateGithubFile (remote_at 3) (encoded_record systemInfo)
         then (True, [Attempt 1, Backoff (1 * 2000), Attempt 2, Backoff (2 * 2000), Attempt 3])
         else (False, [Attempt 1, Backoff (1 * 2000), Attempt 2, Backoff (2 * 2000),
                       Attempt 3, Backoff (3 * 2000)]))"
  by (simp add: main_def main_try_def retry_loop_3 del: retry_loop.simps One_nat_def)

text \<open>
  An attempt fails when the write throws or is answered with a status outside 200 to 299;
  \<open>updateGithubFile\<close> then returns false and throws nothing.
\<close>

lemma attempt_fails:
  "(\<exists>error. http_put r (updateData (fetched_sha (http_get r)) encoded) = Inl error)
     \<longrightarrow> updateGithubFile r encoded = False"
  "(\<exists>response. http_put r (updateData (fetched_sha (http_get r)) encoded) = Inr response
       \<and> (statusCode response < 200 \<or> 299 < statusCode response))
     \<longrightarrow> updateGithubFile r encoded = False"
  by (auto simp: updateGithubFile_eq)

text \<open>
  With a numeric timeout in the configuration every request gets its listener:
  \<open>updateGithubFile\<close> sees what the network does, the promise of \<open>main\<close> is fulfilled
  whatever \<^verbatim>\<open>getSystemInfo\<close> and the store do, and the exit status is 0, also after three
  failures.
\<close>

lemma seen_with_timeout:
  "\<not> setTimeout_throws HTTP_TIMEOUT \<Longrightarrow> seen_with HTTP_TIMEOUT store = store"
  by (simp add: seen_with_def httpsRequest_def timeoutMs_def)

lemma process_with_timeout:
  assumes "\<not> setTimeout_throws HTTP_TIMEOUT"
  shows "heartbeat_process HTTP_TIMEOUT info store_at = Settles (main info store_at)"
    and "exit_status (heartbeat_process HTTP_TIMEOUT info store_at) = 0"
proof -
  show p: "heartbeat_process HTTP_TIMEOUT info store_at = Settles (main info store_at)"
    using assms
    by (simp add: heartbeat_process_def seen_with_timeout httpsRequest_def timeoutMs_def
             split: sum.splits)
  obtain result where "main info store_at = Inr result"
    using main_never_rejects by blast
  then show "exit_status (heartbeat_process HTTP_TIMEOUT info store_at) = 0"
    by (simp add: p)
qed

lemma retry_policy_example:
  "heartbeat_process (Some 30000) (Inr demo_info) always_offline
     = Settles (Inr \<lparr>succeeded = False,
                     events = [Attempt 1, Backoff 2000, Attempt 2, Backoff 4000,
                               Attempt 3, Backoff 6000]\<rparr>)"
  "exit_status (heartbeat_process (Some 30000) (Inr demo_info) always_offline) = 0"
  "heartbeat_process (Some 30000) (Inr demo_info) back_at_2
     = Settles (Inr \<lparr>succeeded = True, events = [Attempt 1, Backoff 2000, Attempt 2]\<rparr>)"
  "updateGithubFile stale ''e30='' = False"
proof -
  have t: "\<not> setTimeout_throws (Some 30000)" by (simp add: setTimeout_throws_def)
  have off: "updateGithubFile offline e = False" for e
    by (simp add: updateGithubFile_eq offline_def)
  have on: "updateGithubFile first_run e = True" for e
    by (simp add: updateGithubFile_eq first_run_def fetched_sha_def updateData_def accepts_create_def)
  obtain r1 where r1: "main (Inr demo_info) always_offline = Inr r1"
      "(succeeded r1, events r1)
       = (False, [Attempt 1, Backoff 2000, Attempt 2, Backoff 4000, Attempt 3, Backoff 6000])"
    using retry_policy[of demo_info always_offline] by (auto simp: always_offline_def off)
  obtain r2 where r2: "main (Inr demo_info) back_at_2 = Inr r2"
      "(succeeded r2, events r2) = (True, [Attempt 1, Backoff 2000, Attempt 2])"
    using retry_policy[of demo_info back_at_2] by (auto simp: back_at_2_def off on)
  show "heartbeat_process (Some 30000) (Inr demo_info) always_offline
     = Settles (Inr \<lparr>succeeded = False,
                     events = [Attempt 1, Backoff 2000, Attempt 2, Backoff 4000,
                               Attempt 3, Backoff 6000]\<rparr>)"
    using r1 by (simp add: process_with_timeout(1)[OF t])
  show "exit_status (heartbeat_process (Some 30000) (Inr demo_info) always_offline) = 0"
    by (rule process_with_timeout(2)[OF t])
  show "heartbeat_process (Some 30000) (Inr demo_info) back_at_2
     = Settles (Inr \<lparr>succeeded = True, events = [Attempt 1, Backoff 2000, Attempt 2]\<rparr>)"
    using r2 by (simp add: process_with_timeout(1)[OF t])
  show "updateGithubFile stale ''e30='' = False"
    by (simp add: updateGithubFile_eq stale_def fetched_sha_def updateData_def accepts_update_def)
qed

text \<open>
  Without a numeric timeout every call of \<^verbatim>\<open>httpsRequest\<close> throws at line 105: every
  attempt fails, whatever the store does, and each call leaves an orphaned request.
\<close>

lemma attempt_without_timeout:
  "setTimeout_throws HTTP_TIMEOUT \<Longrightarrow> updateGithubFile (seen_with HTTP_TIMEOUT store) encoded = False"
  by (simp add: updateGithubFile_eq seen_with_def httpsRequest_def timeoutMs_def)

lemma process_without_timeout:
  "setTimeout_throws HTTP_TIMEOUT \<Longrightarrow>
   heartbeat_process HTTP_TIMEOUT (Inr systemInfo) store_at = Crashes"
  by (simp add: heartbeat_process_def httpsRequest_def timeoutMs_def)

text \<open>
  Claim C7. The retry policy of the claim is the one proved above, with "retried up to 3
  times" read as three attempts in all, and it ends in exit status 0 when the
  configuration has a numeric \<^verbatim>\<open>default_http_timeout\<close> (\<open>retry_policy\<close>, \<open>attempt_fails\<close>,
  \<open>process_with_timeout\<close>). The last clause of the claim, that the process still exits
  non-fatally after exhausting its retries, fails on the code for the configuration the
  project's README gives, which has no such key: \<^verbatim>\<open>HTTP_TIMEOUT\<close> is \<^verbatim>\<open>undefined\<close>, the
  request options carry no timeout of their own, \<^verbatim>\<open>req.setTimeout\<close> throws at line 105
  before the listener of line 109 is attached, \<open>updateGithubFile\<close> returns false, and the
  orphaned request of the first fetch ends the process with status 1 when its socket
  fails. The comments of lines 58 and 104 say that a numeric timeout is always provided.
  The theorem evaluates the code at that input, with a store that cannot be reached.
\<close>

theorem unconfigured_timeout_crashes:
  "timeoutMs None None = None
   \<and> setTimeout_throws None
   \<and> orphan (httpsRequest None None (http_get (always_offline 1)))
   \<and> updateGithubFile (seen_with None (always_offline 1)) (encoded_record demo_info) = False
   \<and> heartbeat_process None (Inr demo_info) always_offline = Crashes
   \<and> exit_status (heartbeat_process None (Inr demo_info) always_offline) = 1"
  by (simp add: timeoutMs_def setTimeout_throws_def httpsRequest_def heartbeat_process_def
                updateGithubFile_eq seen_with_def)

end
